theory Spec2Isabelle
  imports Complex_Main "HOL-Library.Multiset"
begin

section \<open>The world renderer of \<^verbatim>\<open>src/world/model.py\<close>\<close>

text \<open>
  The module is Python 2 (the driving script \<^verbatim>\<open>visualise-en.py\<close> uses the print
  statement, and \<^verbatim>\<open>height / 2\<close> is used as a sample count and as a pixel index), so
  \<^verbatim>\<open>/\<close> between two integers is floor division: \<^verbatim>\<open>width/2\<close> is \<open>width div 2\<close>,
  while \<^verbatim>\<open>width / 2.\<close> is a division of reals.

  Floating-point numbers are modelled as reals. Where a floating-point result is truncated
  to an integer (the colours of the routes and of the sky pixels), the rounding of every
  double-precision operation is written out with \<open>double\<close>; the geometry and the direction
  grid are computed over the reals. Images are modelled by the ordered log of the
  operations issued on the image and its drawer, which is what the renderers return
  (\<^verbatim>\<open>return image, draw\<close>).
\<close>

subsection \<open>Errors and the numerical library\<close>

datatype error = ValueError | IndexError | ZeroDivisionError

definition bind_err :: "error + 'a \<Rightarrow> ('a \<Rightarrow> error + 'b) \<Rightarrow> error + 'b" where
  "bind_err m f = (case m of Inl e \<Rightarrow> Inl e | Inr v \<Rightarrow> f v)"

text \<open>\<^verbatim>\<open>a.max()\<close> and \<^verbatim>\<open>a.min()\<close>: the reduction of an empty array raises ValueError.\<close>

fun np_max :: "'a::linorder list \<Rightarrow> error + 'a" where
  "np_max [] = Inl ValueError"
| "np_max (x # xs) = Inr (fold max xs x)"

fun np_min :: "'a::linorder list \<Rightarrow> error + 'a" where
  "np_min [] = Inl ValueError"
| "np_min (x # xs) = Inr (fold min xs x)"

text \<open>
  \<^verbatim>\<open>np.linspace(start, stop, num, endpoint)\<close>: a negative sample count raises
  ValueError; the step divides by \<open>num - 1\<close> with the end point and by \<open>num\<close> without
  it; with a single sample and the end point there is no division and the sample is
  \<open>start\<close>.
\<close>

definition linspace :: "real \<Rightarrow> real \<Rightarrow> int \<Rightarrow> bool \<Rightarrow> error + real list" where
  "linspace start stop num endpoint =
     (if num < 0 then Inl ValueError
      else
        let dv = (if endpoint then num - 1 else num);
            delta = stop - start
        in Inr (map (\<lambda>i. if 0 < dv then start + real i * (delta / real_of_int dv)
                           else start + real i * delta)
                    [0..<nat num]))"

text \<open>\<^verbatim>\<open>a[i]\<close>: an index below zero counts from the end; out of range raises IndexError.\<close>

definition getitem :: "'a list \<Rightarrow> int \<Rightarrow> error + 'a" where
  "getitem a i =
     (if 0 \<le> i \<and> i < int (length a) then Inr (a ! nat i)
      else if i < 0 \<and> - int (length a) \<le> i then Inr (a ! nat (int (length a) + i))
      else Inl IndexError)"

text \<open>\<^verbatim>\<open>int(x)\<close> of a float: truncation toward zero, to an unbounded integer.\<close>

definition py_int :: "real \<Rightarrow> int" where
  "py_int x = (if 0 \<le> x then \<lfloor>x\<rfloor> else \<lceil>x\<rceil>)"

text \<open>
  Double precision. The result of an arithmetic operation on doubles is the double nearest
  to the exact result, ties going to the even significand: the exact result is cut to 53
  significant bits. Numbers too small or too large for a normal double are outside the
  model.
\<close>

definition round_half_even :: "real \<Rightarrow> int" where
  "round_half_even q =
     (let f = \<lfloor>q\<rfloor>; d = q - real_of_int f
      in if d < 1 / 2 then f else if 1 / 2 < d then f + 1 else if even f then f else f + 1)"

definition double :: "real \<Rightarrow> real" where
  "double x =
     (if x = 0 then 0
      else
        let u = 2 powr real_of_int (\<lfloor>log 2 \<bar>x\<bar>\<rfloor> - 52)
        in real_of_int (round_half_even (x / u)) * u)"

text \<open>
  A sufficient test for a real to be a double: a multiple of \<open>1 / 2 ^ 30\<close> below
  \<open>2 ^ 22\<close> in absolute value has at most 52 significant bits.
\<close>

definition exact :: "real \<Rightarrow> bool" where
  "exact x \<longleftrightarrow> \<bar>x\<bar> < 2 ^ 22 \<and> real_of_int \<lfloor>x * 2 ^ 30\<rfloor> = x * 2 ^ 30"

text \<open>
  \<^verbatim>\<open>np.linspace\<close> in doubles, as the library computes it: the samples are
  \<^verbatim>\<open>arange(0, num) * step + start\<close> with \<^verbatim>\<open>step = (stop - start) / div\<close>, every
  operation rounded; with the end point and more than one sample the last sample is set
  to \<^verbatim>\<open>stop\<close>; with at most one sample there is no division.
\<close>

definition sample_double :: "real \<Rightarrow> real \<Rightarrow> int \<Rightarrow> bool \<Rightarrow> nat \<Rightarrow> real" where
  "sample_double start stop num endpoint i =
     (let dv = (if endpoint then num - 1 else num);
          delta = double (stop - start)
      in if endpoint \<and> 1 < num \<and> int i = num - 1 then stop
         else if 1 < num then
           (let step = double (delta / real_of_int dv)
            in if step = 0
               then double (double (double (real i / real_of_int dv) * delta) + start)
               else double (double (real i * step) + start))
         else double (double (real i * delta) + start))"

definition linspace_double :: "real \<Rightarrow> real \<Rightarrow> int \<Rightarrow> bool \<Rightarrow> error + real list" where
  "linspace_double start stop num endpoint =
     (if num < 0 then Inl ValueError
      else Inr (map (sample_double start stop num endpoint) [0..<nat num]))"

text \<open>\<^verbatim>\<open>x % m\<close> on floats, for a positive modulus: the result has the sign of \<open>m\<close>.\<close>

definition fmod :: "real \<Rightarrow> real \<Rightarrow> real" where
  "fmod x m = x - m * real_of_int \<lfloor>x / m\<rfloor>"

text \<open>\<^verbatim>\<open>la.norm(a, axis=-1)\<close> of one row.\<close>

definition la_norm :: "real list \<Rightarrow> real" where
  "la_norm v = sqrt (sum_list (map (\<lambda>a. a * a) v))"

text \<open>
  \<^verbatim>\<open>np.argsort(a)\<close>: the indices that sort \<open>a\<close> in ascending order. The library's
  default sort does not fix the order of equal keys; the model keeps them in index order.
\<close>

definition argsort :: "real list \<Rightarrow> nat list" where
  "argsort a = sort_key (\<lambda>i. a ! i) [0..<length a]"

subsection \<open>Geometry containers, observers and the sky\<close>

type_synonym vertex = "real \<times> real \<times> real"
type_synonym colour = "int \<times> int \<times> int"

text \<open>
  Modelled from the spec: the geometry container library (\<^verbatim>\<open>geometry.PolygonList\<close>,
  \<^verbatim>\<open>geometry.Route\<close>) is not among the sources. A polygon has vertex coordinates
  (x, y, z) and an intrinsic RGB colour; a polygon set is an ordered sequence of polygons;
  \<^verbatim>\<open>polygons.x\<close>, \<^verbatim>\<open>.y\<close>, \<^verbatim>\<open>.z\<close> are the coordinates of all its vertices. A route is
  a sequence of positions with an integer agent number and route number.
\<close>

record Polygon =
  xyz :: "vertex list"
  c_int32 :: colour

type_synonym PolygonList = "Polygon list"

record Route =
  route_xyz :: "vertex list"
  agent_no :: int
  route_no :: int

definition vertices :: "PolygonList \<Rightarrow> vertex list" where
  "vertices ps = concat (map xyz ps)"

definition PolygonList_x :: "PolygonList \<Rightarrow> real list" where
  "PolygonList_x ps = map (\<lambda>(x, y, z). x) (vertices ps)"

definition PolygonList_y :: "PolygonList \<Rightarrow> real list" where
  "PolygonList_y ps = map (\<lambda>(x, y, z). y) (vertices ps)"

definition PolygonList_z :: "PolygonList \<Rightarrow> real list" where
  "PolygonList_z ps = map (\<lambda>(x, y, z). z) (vertices ps)"

definition xy :: "vertex list \<Rightarrow> (real \<times> real) list" where
  "xy vs = map (\<lambda>(x, y, z). (x, y)) vs"

definition times3 :: "vertex \<Rightarrow> real \<times> real \<times> real \<Rightarrow> vertex" where
  "times3 v d = (case v of (x, y, z) \<Rightarrow> (case d of (a, b, c) \<Rightarrow> (x * a, y * b, z * c)))"

text \<open>
  Observers are objects shared by reference between the caller, the world and its sky
  model: they live in a store, addressed by their index. A reference handed in by a caller
  addresses an existing observer.
\<close>

type_synonym datetime = int

record Observer =
  lon :: real
  lat :: real
  date :: datetime

type_synonym ref = nat
type_synonym store = "Observer list"

text \<open>
  Modelled from the spec: the sky model (\<^verbatim>\<open>sky.ChromaticitySkyModel\<close>) is not among
  the sources. It keeps the reference to its observer (\<^verbatim>\<open>self.sky.obs\<close> in the renderer)
  and \<^verbatim>\<open>generate()\<close> recomputes the sky state from the observer's current date and
  place; the state is represented by the observer it was computed from.
\<close>

record ChromaticitySkyModel =
  obs :: ref
  nside :: nat
  generated :: "Observer option"

definition generate :: "store \<Rightarrow> ChromaticitySkyModel \<Rightarrow> ChromaticitySkyModel" where
  "generate st s = s\<lparr>generated := Some (st ! obs s)\<rparr>"

text \<open>
  Modelled from the spec: the compound-eye model (\<^verbatim>\<open>compoundeye.CompoundEye\<close>) is not
  among the sources. It is constructed from a direction grid and has a
  polarisation-filter toggle, a facing direction and a sky binding.
\<close>

record CompoundEye =
  ommatidia :: "(real \<times> real) list"
  pol_filters :: bool
  facing_direction :: real
  eye_sky :: "ChromaticitySkyModel option"

text \<open>
  The collaborators whose code is outside the sources are parameters of the model:
  the standard library's colour conversion, the spherical projector \<^verbatim>\<open>utils.vec2sph\<close>,
  the container's scaling of one vertex by three factors, the values \<^verbatim>\<open>eye.L\<close> sampled by
  a compound eye (one RGB triple per direction), the observer that
  \<^verbatim>\<open>get_seville_observer()\<close> creates, the integer that the conversion of a double
  outside the 32-bit range yields on the machine, and the channel that the image library
  stores when it is handed an integer.
\<close>

record ext =
  hsv_to_rgb :: "real \<Rightarrow> real \<Rightarrow> real \<Rightarrow> real \<times> real \<times> real"
  vec2sph :: "vertex \<Rightarrow> real \<times> real \<times> real"
  scale_vertex :: "real \<Rightarrow> real \<Rightarrow> real \<Rightarrow> vertex \<Rightarrow> vertex"
  eye_L :: "CompoundEye \<Rightarrow> (real \<times> real \<times> real) list"
  seville :: Observer
  int32_overflow :: "real \<Rightarrow> int"
  stored_channel :: "int \<Rightarrow> int"

definition get_seville_observer :: "ext \<Rightarrow> store \<Rightarrow> ref \<times> store" where
  "get_seville_observer X st = (length st, st @ [seville X])"

definition Polygon_scale :: "ext \<Rightarrow> real \<Rightarrow> real \<Rightarrow> real \<Rightarrow> Polygon \<Rightarrow> Polygon" where
  "Polygon_scale X fx fy fz p = p\<lparr>xyz := map (scale_vertex X fx fy fz) (xyz p)\<rparr>"

definition Route_scale :: "ext \<Rightarrow> real \<Rightarrow> real \<Rightarrow> real \<Rightarrow> Route \<Rightarrow> Route" where
  "Route_scale X fx fy fz rt = rt\<lparr>route_xyz := map (scale_vertex X fx fy fz) (route_xyz rt)\<rparr>"

subsection \<open>The world\<close>

definition WIDTH :: int where "WIDTH = 36"
definition HEIGHT :: int where "HEIGHT = 10"
definition LENGTH :: int where "LENGTH = 36"

definition GRASS_COLOUR :: colour where "GRASS_COLOUR = (0, 255, 0)"
definition GROUND_COLOUR :: colour where "GROUND_COLOUR = (229, 183, 90)"
definition SKY_COLOUR :: colour where "SKY_COLOUR = (13, 135, 201)"

record World =
  sky :: ChromaticitySkyModel
  eye :: "CompoundEye option"
  world_pol_filters :: bool
  polygons :: PolygonList
  routes :: "Route list"
  world_width :: int
  world_length :: int
  world_height :: int
  normalise_factor :: real
  uniform_sky :: bool

text \<open>
  \<^verbatim>\<open>World.__init__\<close>. \<open>now\<close> is the value that \<^verbatim>\<open>datetime.now()\<close> returns in the
  call; \<open>observer\<close> is \<open>None\<close> or the reference the caller passes.
\<close>

definition World_init ::
  "ext \<Rightarrow> datetime \<Rightarrow> store \<Rightarrow> ref option \<Rightarrow> PolygonList \<Rightarrow> int \<Rightarrow> int \<Rightarrow> int \<Rightarrow> bool \<Rightarrow> bool
     \<Rightarrow> error + (World \<times> store)" where
  "World_init X now st observer ps width len height uniform enable_pol_filters =
     bind_err (np_max (PolygonList_x ps)) (\<lambda>mx.
     bind_err (np_max (PolygonList_y ps)) (\<lambda>my.
     bind_err (np_max (PolygonList_z ps)) (\<lambda>mz.
     bind_err (np_max [mx, my, mz]) (\<lambda>xmax.
       let (ob, st1) = (case observer of None \<Rightarrow> get_seville_observer X st
                                        | Some r \<Rightarrow> (r, st));
           st2 = st1[ob := (st1 ! ob)\<lparr>date := now\<rparr>];
           sk = generate st2 \<lparr>obs = ob, nside = 1, generated = None\<rparr>
       in Inr (\<lparr>sky = sk, eye = None, world_pol_filters = enable_pol_filters,
                 polygons = ps, routes = [], world_width = width, world_length = len,
                 world_height = height, normalise_factor = xmax, uniform_sky = uniform\<rparr>,
               st2)))))"

definition ratio2meters :: "World \<Rightarrow> real" where
  "ratio2meters w = normalise_factor w"

definition enable_pol_filters :: "World \<Rightarrow> bool \<Rightarrow> World" where
  "enable_pol_filters w v = w\<lparr>world_pol_filters := v\<rparr>"

definition add_route :: "World \<Rightarrow> Route \<Rightarrow> World" where
  "add_route w route = w\<lparr>routes := routes w @ [route]\<rparr>"

text \<open>A parameter that is \<^verbatim>\<open>None\<close> takes its default.\<close>

definition or_default :: "'a option \<Rightarrow> 'a \<Rightarrow> 'a" where
  "or_default v d = (case v of None \<Rightarrow> d | Some u \<Rightarrow> u)"

subsection \<open>Draw operations\<close>

datatype draw_op =
    New_image int int colour
  | Rectangle int int int int colour
  | Put_pixel int int colour
  | Draw_polygon "(real \<times> real) list" colour
  | Draw_line "(real \<times> real) list" colour

fun is_polygon :: "draw_op \<Rightarrow> bool" where
  "is_polygon (Draw_polygon p c) = True"
| "is_polygon other = False"

subsection \<open>The top view\<close>

definition top_polygon :: "ext \<Rightarrow> World \<Rightarrow> int \<Rightarrow> int \<Rightarrow> int \<Rightarrow> Polygon \<Rightarrow> draw_op" where
  "top_polygon X w width len height p =
     (let f = ratio2meters w;
          pp = map (\<lambda>v. times3 v (real_of_int width, real_of_int len, real_of_int height))
                   (xyz (Polygon_scale X f f f p))
      in Draw_polygon (xy pp) (c_int32 p))"

definition route_hue :: "int \<Rightarrow> Route \<Rightarrow> error + real" where
  "route_hue nants rt =
     bind_err (linspace_double 0 1 nants True) (\<lambda>hs. getitem hs (agent_no rt - 1))"

definition route_saturation :: "int \<Rightarrow> Route \<Rightarrow> error + real" where
  "route_saturation nroutes rt =
     bind_err (linspace_double 0 1 nroutes True) (\<lambda>ss. getitem ss (route_no rt - 1))"

definition route_fill :: "ext \<Rightarrow> int \<Rightarrow> int \<Rightarrow> Route \<Rightarrow> error + colour" where
  "route_fill X nants nroutes rt =
     bind_err (route_hue nants rt) (\<lambda>h.
     bind_err (route_saturation nroutes rt) (\<lambda>s.
       let v = 1 / 2 in
       (case hsv_to_rgb X h s v of (r, g, b) \<Rightarrow>
          Inr (py_int (double (r * 255)), py_int (double (g * 255)),
               py_int (double (b * 255))))))"

definition top_route ::
  "ext \<Rightarrow> World \<Rightarrow> int \<Rightarrow> int \<Rightarrow> int \<Rightarrow> int \<Rightarrow> int \<Rightarrow> Route \<Rightarrow> error + draw_op" where
  "top_route X w width len height nants nroutes route =
     (let f = ratio2meters w;
          rt = Route_scale X f f f route;
          pts = map (\<lambda>v. times3 v (real_of_int width, real_of_int len, real_of_int height))
                    (route_xyz rt)
      in bind_err (route_fill X nants nroutes rt) (\<lambda>c. Inr (Draw_line (xy pts) c)))"

fun top_routes ::
  "ext \<Rightarrow> World \<Rightarrow> int \<Rightarrow> int \<Rightarrow> int \<Rightarrow> int \<Rightarrow> int \<Rightarrow> Route list \<Rightarrow> error + draw_op list" where
  "top_routes X w width len height nants nroutes [] = Inr []"
| "top_routes X w width len height nants nroutes (route # rest) =
     bind_err (top_route X w width len height nants nroutes route) (\<lambda>ln.
     bind_err (top_routes X w width len height nants nroutes rest) (\<lambda>lns.
       Inr (ln # lns)))"

text \<open>
  \<^verbatim>\<open>World.draw_top_view\<close>. The method assigns no attribute of the world; the world is
  returned beside the operations so that this can be stated.
\<close>

definition draw_top_view ::
  "ext \<Rightarrow> World \<Rightarrow> int option \<Rightarrow> int option \<Rightarrow> int option \<Rightarrow> error + (draw_op list \<times> World)" where
  "draw_top_view X w width len height =
     (let width = or_default width (world_width w);
          len = or_default len (world_length w);
          height = or_default height (world_height w);
          image = [New_image width len GROUND_COLOUR];
          polys = map (top_polygon X w width len height) (polygons w)
      in bind_err (np_max (map agent_no (routes w))) (\<lambda>nants.
         bind_err (np_max (map route_no (routes w))) (\<lambda>nroutes.
         bind_err (top_routes X w width len height nants nroutes (routes w)) (\<lambda>lns.
           Inr (image @ polys @ lns, w)))))"

subsection \<open>The panoramic view\<close>

text \<open>
  The ommatidia positions: \<open>width\<close> azimuth samples crossed with \<open>height div 2\<close>
  elevation samples. \<^verbatim>\<open>np.meshgrid(phis, thetas)\<close> varies the elevation fastest, and each
  row of the flattened, transposed array is an (elevation, azimuth) pair.
\<close>

definition ommatidia_grid :: "int \<Rightarrow> int \<Rightarrow> error + (real \<times> real) list" where
  "ommatidia_grid width height =
     bind_err (linspace (- pi) pi width False) (\<lambda>thetas.
     bind_err (linspace (pi / 2) 0 (height div 2) False) (\<lambda>phis.
       Inr (concat (map (\<lambda>az. map (\<lambda>el. (el, az)) phis) thetas))))"

text \<open>
  \<^verbatim>\<open>np.int32(x)\<close> of a double: truncation toward zero when the result fits 32 bits;
  otherwise the machine decides, and the result is some 32-bit integer.
\<close>

definition np_int32 :: "ext \<Rightarrow> real \<Rightarrow> int" where
  "np_int32 X x =
     (if - (2 ^ 31) - 1 < x \<and> x < 2 ^ 31 then py_int x
      else (int32_overflow X x + 2 ^ 31) mod 2 ^ 32 - 2 ^ 31)"

text \<open>\<^verbatim>\<open>tuple(np.int32(255 * c))\<close>: the product is a product of doubles.\<close>

definition sky_pixel :: "ext \<Rightarrow> real \<times> real \<times> real \<Rightarrow> colour" where
  "sky_pixel X c =
     (case c of (r, g, b) \<Rightarrow>
        (np_int32 X (double (255 * r)), np_int32 X (double (255 * g)),
         np_int32 X (double (255 * b))))"


text \<open>
  The loop \<^verbatim>\<open>for i, c in enumerate(self.eye.L)\<close>: the integer division by
  \<^verbatim>\<open>height / 2\<close> raises ZeroDivisionError when that is zero, and a position outside the
  image raises IndexError.
\<close>

fun put_pixels ::
  "ext \<Rightarrow> int \<Rightarrow> int \<Rightarrow> nat \<Rightarrow> (real \<times> real \<times> real) list \<Rightarrow> error + draw_op list" where
  "put_pixels X width height i [] = Inr []"
| "put_pixels X width height i (c # cs) =
     (if height div 2 = 0 then Inl ZeroDivisionError
      else
        let px = int i div (height div 2);
            py = int i mod (height div 2)
        in if 0 \<le> px \<and> px < width \<and> 0 \<le> py \<and> py < height
           then bind_err (put_pixels X width height (Suc i) cs) (\<lambda>rest.
                  Inr (Put_pixel px py (sky_pixel X c) # rest))
           else Inl IndexError)"

definition draw_sky ::
  "ext \<Rightarrow> datetime \<Rightarrow> store \<Rightarrow> World \<Rightarrow> real \<Rightarrow> int \<Rightarrow> int \<Rightarrow> bool \<Rightarrow> (real \<times> real) list
     \<Rightarrow> error + (draw_op list \<times> World \<times> store)" where
  "draw_sky X now st w r width height update_sky omm =
     (if uniform_sky w
      then Inr ([Rectangle 0 0 width (height div 2) SKY_COLOUR], w, st)
      else
        let st1 = (if update_sky then st[obs (sky w) := (st ! obs (sky w))\<lparr>date := now\<rparr>]
                   else st);
            sk = (if update_sky then generate st1 (sky w) else sky w);
            e = \<lparr>ommatidia = omm, pol_filters = world_pol_filters w,
                 facing_direction = - r, eye_sky = Some sk\<rparr>;
            w1 = w\<lparr>sky := sk, eye := Some e\<rparr>
        in bind_err (put_pixels X width height 0 (eye_L X e)) (\<lambda>pixels.
             Inr (pixels, w1, st1)))"

text \<open>
  A projected polygon: the row and the column of each vertex on the image, the
  representative distance and the fill colour (the arrays \<^verbatim>\<open>thetas\<close>, \<^verbatim>\<open>phis\<close>,
  \<^verbatim>\<open>rhos\<close> and \<^verbatim>\<open>c_int32\<close> after the projection).
\<close>

record Projected =
  rows :: "real list"
  cols :: "real list"
  rho :: real
  fill :: colour

definition minus3 :: "vertex \<Rightarrow> vertex \<Rightarrow> vertex" where
  "minus3 v u = (case v of (x, y, z) \<Rightarrow> (case u of (a, b, c) \<Rightarrow> (x - a, y - b, z - c)))"

text \<open>The product of a row vector with the heading rotation matrix \<open>R\<close>.\<close>

definition dot_R :: "real \<Rightarrow> vertex \<Rightarrow> vertex" where
  "dot_R r v = (case v of (a, b, c) \<Rightarrow> (a * cos r + b * sin r, - a * sin r + b * cos r, c))"

definition project_polygon ::
  "ext \<Rightarrow> World \<Rightarrow> vertex \<Rightarrow> real \<Rightarrow> int \<Rightarrow> int \<Rightarrow> int \<Rightarrow> Polygon \<Rightarrow> Projected" where
  "project_polygon X w pos r width len height p =
     (let f = ratio2meters w;
          pp = map (\<lambda>v. times3 v (real_of_int width, real_of_int len, real_of_int height))
                   (xyz (Polygon_scale X f f f p));
          sph = map (\<lambda>v. vec2sph X (dot_R r (minus3 v pos))) pp;
          theta = map (\<lambda>(t, ph, rh). t) sph;
          phi = map (\<lambda>(t, ph, rh). ph) sph;
          rhos = map (\<lambda>(t, ph, rh). rh) sph
      in \<lparr>rows = map (\<lambda>t. real_of_int height * (fmod t pi / pi)) theta,
          cols = map (\<lambda>ph. real_of_int width * fmod (pi + ph) (2 * pi) / (2 * pi)) phi,
          rho = la_norm rhos,
          fill = c_int32 p\<rparr>)"

text \<open>\<^verbatim>\<open>ind = np.argsort(rhos)[::-1]\<close> and the selection \<^verbatim>\<open>[ind]\<close> of the three arrays.\<close>

definition depth_order :: "Projected list \<Rightarrow> Projected list" where
  "depth_order qs = map (\<lambda>i. qs ! i) (rev (argsort (map rho qs)))"

text \<open>The body of the drawing loop, for one projected polygon.\<close>

definition draw_projected :: "int \<Rightarrow> Projected \<Rightarrow> error + draw_op list" where
  "draw_projected width q =
     bind_err (np_max (cols q)) (\<lambda>mx.
     bind_err (np_min (cols q)) (\<lambda>mn.
       if mx - mn < real_of_int (width div 2)
       then Inr [Draw_polygon (zip (cols q) (rows q)) (fill q)]
       else
         let phi0 = map (\<lambda>c. if c < real_of_int (width div 2) then c + real_of_int width
                               else c) (cols q);
             phi1 = map (\<lambda>c. if real_of_int (width div 2) \<le> c then c - real_of_int width
                               else c) (cols q)
         in Inr [Draw_polygon (zip phi0 (rows q)) (fill q),
                 Draw_polygon (zip phi1 (rows q)) (fill q)]))"

fun draw_polygons :: "int \<Rightarrow> Projected list \<Rightarrow> error + draw_op list" where
  "draw_polygons width [] = Inr []"
| "draw_polygons width (q # qs) =
     bind_err (draw_projected width q) (\<lambda>calls.
     bind_err (draw_polygons width qs) (\<lambda>rest.
       Inr (calls @ rest)))"

definition view_position :: "World \<Rightarrow> real \<Rightarrow> real \<Rightarrow> real \<Rightarrow> int \<Rightarrow> int \<Rightarrow> int \<Rightarrow> vertex" where
  "view_position w x y z width len height =
     times3 (x / ratio2meters w, y / ratio2meters w, z / ratio2meters w)
            (real_of_int width, real_of_int len, real_of_int height)"

text \<open>
  \<^verbatim>\<open>World.draw_panoramic_view\<close>. \<open>now\<close> is the value that \<^verbatim>\<open>datetime.now()\<close> would
  return during the call, and \<open>st\<close> the store of the observers; the world and the store
  are returned as the call leaves them.
\<close>

definition draw_panoramic_view ::
  "ext \<Rightarrow> datetime \<Rightarrow> store \<Rightarrow> World \<Rightarrow> real option \<Rightarrow> real option \<Rightarrow> real option \<Rightarrow> real
     \<Rightarrow> int option \<Rightarrow> int option \<Rightarrow> int option \<Rightarrow> bool
     \<Rightarrow> error + (draw_op list \<times> World \<times> store)" where
  "draw_panoramic_view X now st w x y z r width len height update_sky =
     (let width = or_default width (world_width w);
          len = or_default len (world_length w);
          height = or_default height (world_height w);
          x = or_default x (real_of_int width / 2);
          y = or_default y (real_of_int len / 2);
          z = or_default z (real_of_int height / 2 + 6 / 100 * real_of_int height)
      in bind_err (ommatidia_grid width height) (\<lambda>omm.
         bind_err (draw_sky X now st w r width height update_sky omm) (\<lambda>(sky_ops, w1, st1).
           let pos = view_position w1 x y z width len height;
               qs = map (project_polygon X w1 pos r width len height) (polygons w1)
           in bind_err (draw_polygons width (depth_order qs)) (\<lambda>poly_ops.
                Inr (New_image width height GROUND_COLOUR # sky_ops @ poly_ops, w1, st1)))))"

text \<open>The draw calls that the loop issues for one projected polygon.\<close>

definition draw_calls :: "int \<Rightarrow> Projected \<Rightarrow> draw_op list" where
  "draw_calls width q = (case draw_projected width q of Inl e \<Rightarrow> [] | Inr calls \<Rightarrow> calls)"


subsection \<open>The words of the specification\<close>

text \<open>
  The specification's normalisation scale: the maximum absolute coordinate across all
  polygon vertices.
\<close>

definition coordinates :: "PolygonList \<Rightarrow> real list" where
  "coordinates ps = PolygonList_x ps @ PolygonList_y ps @ PolygonList_z ps"

definition max_abs_coordinate :: "PolygonList \<Rightarrow> real" where
  "max_abs_coordinate ps = fold max (map abs (coordinates ps)) 0"



subsection \<open>Concrete inputs\<close>

text \<open>
  An instance of the collaborators, for evaluating the renderers on concrete inputs: the
  colour conversion of the standard library (\<^verbatim>\<open>colorsys.hsv_to_rgb\<close>, in doubles), a
  projector that sends every vector to the zero angles and distance \<open>1\<close>, a scaling that
  divides each coordinate by its factor, an eye that samples the same value in every
  direction, a machine that converts a double outside the 32-bit range to the least 32-bit
  integer, and an image library that clips a channel to \<open>0..255\<close>.
\<close>

definition colorsys_hsv_to_rgb :: "real \<Rightarrow> real \<Rightarrow> real \<Rightarrow> real \<times> real \<times> real" where
  "colorsys_hsv_to_rgb h s v =
     (if s = 0 then (v, v, v)
      else
        let i = py_int (double (h * 6));
            f = double (double (h * 6) - real_of_int i);
            p = double (v * double (1 - s));
            q = double (v * double (1 - double (s * f)));
            t = double (v * double (1 - double (s * double (1 - f))));
            i = i mod 6
        in if i = 0 then (v, t, p)
           else if i = 1 then (q, v, p)
           else if i = 2 then (p, v, t)
           else if i = 3 then (p, q, v)
           else if i = 4 then (t, p, v)
           else (v, p, q))"

definition sample_ext :: ext where
  "sample_ext =
     \<lparr>hsv_to_rgb = colorsys_hsv_to_rgb,
      vec2sph = (\<lambda>v. (0, 0, 1)),
      scale_vertex = (\<lambda>fx fy fz v. case v of (x, y, z) \<Rightarrow> (x / fx, y / fy, z / fz)),
      eye_L = (\<lambda>e. map (\<lambda>d. (1 / 2, 1 / 2, 1)) (ommatidia e)),
      seville = \<lparr>lon = - 6, lat = 37, date = 0\<rparr>,
      int32_overflow = (\<lambda>x. - (2 ^ 31)),
      stored_channel = (\<lambda>c. max 0 (min 255 c))\<rparr>"

definition square_ground :: Polygon where
  "square_ground = \<lparr>xyz = [(0, 0, 0), (10, 0, 0), (10, 10, 0), (0, 10, 0)],
                    c_int32 = GROUND_COLOUR\<rparr>"

definition below_zero :: Polygon where
  "below_zero = \<lparr>xyz = [(- 5, 1, 2)], c_int32 = GRASS_COLOUR\<rparr>"

definition all_zero :: Polygon where
  "all_zero = \<lparr>xyz = [(0, 0, 0), (0, 0, 0), (0, 0, 0)], c_int32 = GRASS_COLOUR\<rparr>"

definition at_noon :: Observer where
  "at_noon = \<lparr>lon = 0, lat = 50, date = 7\<rparr>"

text \<open>
  A world as \<^verbatim>\<open>World.__init__\<close> leaves it for the square ground polygon and the
  observer at address 0, constructed at time 8.
\<close>

definition square_world :: "bool \<Rightarrow> World" where
  "square_world uniform =
     \<lparr>sky = \<lparr>obs = 0, nside = 1, generated = Some (at_noon\<lparr>date := 8\<rparr>)\<rparr>,
      eye = None, world_pol_filters = True, polygons = [square_ground], routes = [],
      world_width = 36, world_length = 36, world_height = 10, normalise_factor = 10,
      uniform_sky = uniform\<rparr>"

text \<open>
  The same collaborators with a projector that returns the zero angles and the Euclidean
  length of the vector.
\<close>

definition far_ext :: ext where
  "far_ext =
     sample_ext\<lparr>vec2sph := (\<lambda>v. case v of (x, y, z) \<Rightarrow> (0, 0, sqrt (x * x + y * y + z * z)))\<rparr>"

text \<open>
  Three triangles around the origin, stored in the order red, green, blue, and their
  world with a uniform sky: the greatest coordinate is 2. Seen from the origin in an image
  of 4 by 4 with length 4, every coordinate is doubled, and the distances of the
  vertices are 4, 3, 0 for the red triangle, 2/3, 2/3, 1/3 for the green one and 2, 2, 1
  for the blue one.
\<close>

definition red_triangle :: Polygon where
  "red_triangle = \<lparr>xyz = [(2, 0, 0), (0, 3 / 2, 0), (0, 0, 0)], c_int32 = (255, 0, 0)\<rparr>"

definition green_triangle :: Polygon where
  "green_triangle = \<lparr>xyz = [(1 / 3, 0, 0), (0, 1 / 3, 0), (0, 0, 1 / 6)],
                      c_int32 = (0, 255, 0)\<rparr>"

definition blue_triangle :: Polygon where
  "blue_triangle = \<lparr>xyz = [(1, 0, 0), (0, 1, 0), (0, 0, 1 / 2)], c_int32 = (0, 0, 255)\<rparr>"

definition triangles_world :: World where
  "triangles_world =
     \<lparr>sky = \<lparr>obs = 0, nside = 1, generated = Some (at_noon\<lparr>date := 8\<rparr>)\<rparr>,
      eye = None, world_pol_filters = True,
      polygons = [red_triangle, green_triangle, blue_triangle], routes = [],
      world_width = 4, world_length = 4, world_height = 4, normalise_factor = 2,
      uniform_sky = True\<rparr>"

definition route_of :: "int \<Rightarrow> int \<Rightarrow> Route" where
  "route_of a n = \<lparr>route_xyz = [(1, 1, 0), (2, 3, 0)], agent_no = a, route_no = n\<rparr>"


text \<open>The world of the square with two routes, of agents 1 and 2, both with route number 1.\<close>

definition two_routes_world :: World where
  "two_routes_world = add_route (add_route (square_world False) (route_of 1 1)) (route_of 2 1)"


text \<open>
  Projected polygons: one across the seam of a 36-column image, one inside it, one
  narrower than half of a 5-column image, and one at a given representative distance.
\<close>

definition seam_polygon :: Projected where
  "seam_polygon = \<lparr>rows = [1, 2, 3], cols = [34, 35, 1], rho = 1, fill = GRASS_COLOUR\<rparr>"

definition inner_polygon :: Projected where
  "inner_polygon = \<lparr>rows = [1, 2, 3], cols = [10, 11, 12], rho = 1, fill = GRASS_COLOUR\<rparr>"

definition narrow_polygon :: Projected where
  "narrow_polygon = \<lparr>rows = [0, 1], cols = [0, 9 / 4], rho = 1, fill = GRASS_COLOUR\<rparr>"

definition at_distance :: "real \<Rightarrow> Projected" where
  "at_distance d = \<lparr>rows = [1, 2, 3], cols = [10, 11, 12], rho = d, fill = GRASS_COLOUR\<rparr>"

text \<open>
  The eye that a panoramic view of 2 by 2 pixels with heading 0 leaves in the world of the
  square.
\<close>

definition sampled_eye :: CompoundEye where
  "sampled_eye = \<lparr>ommatidia = [(pi / 2, - pi), (pi / 2, 0)], pol_filters = True,
                   facing_direction = 0, eye_sky = Some (sky (square_world False))\<rparr>"

text \<open>What a construction and a panoramic view leave behind: the factor, and the dates.\<close>

definition constructed_factor :: "error + (World \<times> store) \<Rightarrow> error + real" where
  "constructed_factor res = map_sum id (\<lambda>(w, st). ratio2meters w) res"

definition dates_after :: "error + (draw_op list \<times> World \<times> store) \<Rightarrow> error + datetime list" where
  "dates_after res = map_sum id (\<lambda>(ops, w, st). map date st) res"

section \<open>Basic facts\<close>

lemma bind_err_simps [simp]:
  "bind_err (Inl e) f = Inl e" "bind_err (Inr v) f = f v"
  by (simp_all add: bind_err_def)

lemma bind_err_Inr_iff:
  "bind_err m f = Inr y \<longleftrightarrow> (\<exists>v. m = Inr v \<and> f v = Inr y)"
  by (cases m) simp_all

lemma np_max_Inr: "xs \<noteq> [] \<Longrightarrow> np_max xs = Inr (Max (set xs))"
  by (cases xs) (simp_all add: Max.set_eq_fold del: set_simps)

lemma np_min_Inr: "xs \<noteq> [] \<Longrightarrow> np_min xs = Inr (Min (set xs))"
  by (cases xs) (simp_all add: Min.set_eq_fold del: set_simps)

subsection \<open>Rounding to a double\<close>

lemma round_half_even_int [simp]: "round_half_even (real_of_int n) = n"
  by (simp add: round_half_even_def)



lemma ulp_inverse:
  assumes "L \<le> 52"
  shows "2 powr real_of_int (L - 52) = 1 / 2 ^ nat (52 - L)"
proof -
  define k where "k = nat (52 - L)"
  have "int k = 52 - L" using assms by (simp add: k_def)
  then have "L - 52 = - int k" by linarith
  then have e: "real_of_int (L - 52) = - real k" by (simp only: of_int_minus of_int_of_nat_eq)
  have "2 powr real_of_int (L - 52) = 2 powr (- real k)" by (simp only: e)
  also have "\<dots> = inverse (2 powr real k)" by (rule powr_minus)
  also have "2 powr real k = 2 ^ k" by (rule powr_realpow) simp
  finally show ?thesis by (simp only: k_def inverse_eq_divide)
qed

lemma floor_log_le:
  assumes "0 < y" and "y \<le> 2 ^ n"
  shows "\<lfloor>log 2 y\<rfloor> \<le> int n"
proof -
  have "y \<le> 2 powr real n" using assms(2) by (simp add: powr_realpow)
  then have "log 2 y \<le> real n" using assms(1) by (simp add: log_le_iff)
  then have "real_of_int \<lfloor>log 2 y\<rfloor> \<le> real n"
    using of_int_floor_le [of "log 2 y"] by linarith
  then show ?thesis by linarith
qed


text \<open>A real that passes the test is a double: rounding leaves it as it is.\<close>

lemma double_exact:
  assumes "exact x"
  shows "double x = x"
proof (cases "x = 0")
  case True
  then show ?thesis by (simp add: double_def)
next
  case False
  define L where "L = \<lfloor>log 2 \<bar>x\<bar>\<rfloor>"
  define k where "k = nat (52 - L)"
  define m where "m = \<lfloor>x * 2 ^ 30\<rfloor>"
  from assms have small: "\<bar>x\<bar> < 2 ^ 22" and m: "real_of_int m = x * 2 ^ 30"
    by (simp_all add: exact_def m_def)
  have "0 < \<bar>x\<bar>" using False by simp
  then have "L \<le> 22" using floor_log_le [of "\<bar>x\<bar>" 22] small by (simp add: L_def)
  then have L: "L \<le> 52" and k30: "30 \<le> k" by (simp_all add: k_def)
  have "2 powr real_of_int (L - 52) = 1 / 2 ^ k"
    unfolding k_def by (rule ulp_inverse [OF L])
  then have u: "2 powr (real_of_int L - 52) = 1 / 2 ^ k" by simp
  have "k = 30 + (k - 30)" using k30 by simp
  then have "(2::real) ^ k = 2 ^ (30 + (k - 30))" by simp
  also have "\<dots> = 2 ^ 30 * 2 ^ (k - 30)" by (rule power_add)
  finally have "x * 2 ^ k = (x * 2 ^ 30) * 2 ^ (k - 30)" by (simp only: mult.assoc)
  then have "x * 2 ^ k = real_of_int m * 2 ^ (k - 30)" by (simp only: m)
  then have q: "x * 2 ^ k = real_of_int (m * 2 ^ (k - 30))" by simp
  have "double x = real_of_int (round_half_even (x * 2 ^ k)) / 2 ^ k"
    using False by (simp add: double_def L_def [symmetric] u Let_def)
  also have "\<dots> = x * 2 ^ k / 2 ^ k"
    unfolding q round_half_even_int ..
  finally show ?thesis by simp
qed

lemma double_zero [simp]: "double 0 = 0"
  by (simp add: double_def)


section \<open>Construction and the normalisation factor\<close>

lemma World_init_Inr:
  assumes "vertices ps \<noteq> []"
  shows "\<exists>w st'. World_init X now st observer ps width len height uniform pf = Inr (w, st')
     \<and> normalise_factor w = Max (set (coordinates ps)) \<and> polygons w = ps"
proof -
  let ?x = "PolygonList_x ps" and ?y = "PolygonList_y ps" and ?z = "PolygonList_z ps"
  have ne: "?x \<noteq> []" "?y \<noteq> []" "?z \<noteq> []"
    using assms by (simp_all add: PolygonList_x_def PolygonList_y_def PolygonList_z_def)
  have m3: "Max (set (coordinates ps)) = max (Max (set ?x)) (max (Max (set ?y)) (Max (set ?z)))"
    using ne by (simp add: coordinates_def Max_Un)
  show ?thesis
    unfolding World_init_def
    by (simp add: np_max_Inr ne m3 Let_def max.assoc split: prod.splits option.splits)
qed

lemma World_init_empty:
  assumes "vertices ps = []"
  shows "World_init X now st observer ps width len height uniform pf = Inl ValueError"
  using assms by (simp add: World_init_def PolygonList_x_def)

lemma max_abs_eq_Max:
  fixes cs :: "real list"
  assumes ne: "cs \<noteq> []" and low: "\<forall>c\<in>set cs. - c \<le> Max (set cs)"
  shows "fold max (map abs cs) 0 = Max (set cs)"
proof -
  let ?M = "Max (set cs)"
  have M_in: "?M \<in> set cs" using ne by (simp add: Max_in)
  have bound: "\<bar>c\<bar> \<le> ?M" if "c \<in> set cs" for c
    using that low by (simp add: abs_le_iff)
  have "\<bar>?M\<bar> \<le> ?M" using bound M_in by blast
  then have M0: "0 \<le> ?M" and Mabs: "\<bar>?M\<bar> = ?M" by simp_all
  have "fold max (map abs cs) 0 = Max (set (0 # map abs cs))"
    by (simp only: Max.set_eq_fold)
  also have "\<dots> = ?M"
  proof (rule Max_eqI)
    show "finite (set (0 # map abs cs))" by simp
    show "y \<le> ?M" if "y \<in> set (0 # map abs cs)" for y
      using that M0 bound by auto
    show "?M \<in> set (0 # map abs cs)"
      using M_in Mabs by (metis image_eqI list.set_intros(2) set_map)
  qed
  finally show ?thesis .
qed

lemma draw_top_view_world:
  "draw_top_view X w a b c = Inr (ops, w') \<Longrightarrow> w' = w"
  by (auto simp: draw_top_view_def Let_def bind_err_Inr_iff)

lemma draw_sky_frame:
  assumes "draw_sky X now st w r width height upd omm = Inr (so, w1, st1)"
  shows "polygons w1 = polygons w \<and> normalise_factor w1 = normalise_factor w
       \<and> routes w1 = routes w \<and> uniform_sky w1 = uniform_sky w
       \<and> world_pol_filters w1 = world_pol_filters w
       \<and> world_width w1 = world_width w \<and> world_length w1 = world_length w
       \<and> world_height w1 = world_height w"
  using assms by (auto simp: draw_sky_def Let_def bind_err_Inr_iff split: if_splits)

lemma draw_panoramic_view_Inr:
  assumes "draw_panoramic_view X now st w x y z r width len height upd = Inr (ops, w1, st1)"
  shows "\<exists>omm sky_ops poly_ops.
      ommatidia_grid (or_default width (world_width w)) (or_default height (world_height w)) = Inr omm
    \<and> draw_sky X now st w r (or_default width (world_width w))
        (or_default height (world_height w)) upd omm = Inr (sky_ops, w1, st1)
    \<and> draw_polygons (or_default width (world_width w))
        (depth_order (map (project_polygon X w1
           (view_position w1
              (or_default x (real_of_int (or_default width (world_width w)) / 2))
              (or_default y (real_of_int (or_default len (world_length w)) / 2))
              (or_default z (real_of_int (or_default height (world_height w)) / 2
                             + 6 / 100 * real_of_int (or_default height (world_height w))))
              (or_default width (world_width w)) (or_default len (world_length w))
              (or_default height (world_height w)))
           r (or_default width (world_width w)) (or_default len (world_length w))
           (or_default height (world_height w))) (polygons w1))) = Inr poly_ops
    \<and> ops = New_image (or_default width (world_width w)) (or_default height (world_height w))
              GROUND_COLOUR # sky_ops @ poly_ops"
  using assms unfolding draw_panoramic_view_def Let_def
  by (auto simp: bind_err_Inr_iff)

lemma draw_panoramic_view_frame:
  assumes "draw_panoramic_view X now st w x y z r width len height upd = Inr (ops, w1, st1)"
  shows "polygons w1 = polygons w \<and> normalise_factor w1 = normalise_factor w"
  using draw_panoramic_view_Inr [OF assms] draw_sky_frame by blast

text \<open>
  Claim C1, as the code has it. Constructing a world from a polygon set with at least one
  vertex succeeds, and the normalisation factor \<^verbatim>\<open>ratio2meters\<close> is the maximum
  coordinate over all vertices and the three axes: the maximum of the signed
  coordinates, which is the maximum absolute coordinate whenever no coordinate lies below
  minus that maximum (in particular when no coordinate is negative). The factor is
  assigned in the constructor only: adding a route, switching the filters, a top view and
  a panoramic view of the world leave the stored polygons and the factor as they are.
\<close>

theorem ratio2meters_max_coordinate:
  assumes "vertices ps \<noteq> []"
  shows "case World_init X now st observer ps width len height uniform pf of
           Inl e \<Rightarrow> False
         | Inr (w, st') \<Rightarrow>
             ratio2meters w = Max (set (coordinates ps))
           \<and> ((\<forall>c\<in>set (coordinates ps). - c \<le> Max (set (coordinates ps)))
                \<longrightarrow> ratio2meters w = max_abs_coordinate ps)
           \<and> polygons w = ps
           \<and> ratio2meters (add_route w route) = ratio2meters w
           \<and> polygons (add_route w route) = ps
           \<and> ratio2meters (enable_pol_filters w flag) = ratio2meters w
           \<and> polygons (enable_pol_filters w flag) = ps
           \<and> (case draw_top_view X w tw tln th of
                 Inl e \<Rightarrow> True
               | Inr (ops, w') \<Rightarrow> polygons w' = ps \<and> ratio2meters w' = ratio2meters w)
           \<and> (case draw_panoramic_view X now' st' w x y z r pw pl ph upd of
                 Inl e \<Rightarrow> True
               | Inr (ops, w', st'') \<Rightarrow> polygons w' = ps \<and> ratio2meters w' = ratio2meters w)"
proof -
  obtain w st' where
    init: "World_init X now st observer ps width len height uniform pf = Inr (w, st')"
    and fac: "normalise_factor w = Max (set (coordinates ps))" and pol: "polygons w = ps"
    using World_init_Inr [OF assms] by blast
  have ne: "coordinates ps \<noteq> []"
    using assms by (simp add: coordinates_def PolygonList_x_def)
  have abs: "(\<forall>c\<in>set (coordinates ps). - c \<le> Max (set (coordinates ps)))
                \<longrightarrow> ratio2meters w = max_abs_coordinate ps"
    using max_abs_eq_Max [OF ne] fac by (simp add: ratio2meters_def max_abs_coordinate_def)
  have top: "case draw_top_view X w tw tln th of
                 Inl e \<Rightarrow> True
               | Inr (ops, w') \<Rightarrow> polygons w' = ps \<and> ratio2meters w' = ratio2meters w"
    using draw_top_view_world pol by (fastforce split: sum.splits)
  have pan: "case draw_panoramic_view X now' st' w x y z r pw pl ph upd of
                 Inl e \<Rightarrow> True
               | Inr (ops, w', st'') \<Rightarrow> polygons w' = ps \<and> ratio2meters w' = ratio2meters w"
    using draw_panoramic_view_frame pol
    by (fastforce simp: ratio2meters_def split: sum.splits)
  have upd: "ratio2meters (add_route w route) = ratio2meters w"
    "polygons (add_route w route) = ps"
    "ratio2meters (enable_pol_filters w flag) = ratio2meters w"
    "polygons (enable_pol_filters w flag) = ps"
    using pol by (simp_all add: ratio2meters_def add_route_def enable_pol_filters_def)
  show ?thesis
    using init fac pol abs top pan upd by (simp add: ratio2meters_def)
qed

theorem ratio2meters_max_coordinate_witness:
  "vertices [square_ground] \<noteq> []
   \<and> (case World_init sample_ext 8 [at_noon] (Some 0) [square_ground] 36 36 10 False True of
         Inl e \<Rightarrow> False
       | Inr (w, st') \<Rightarrow> ratio2meters w = 10 \<and> max_abs_coordinate [square_ground] = 10
           \<and> polygons w = [square_ground])"
proof -
  have ne: "vertices [square_ground] \<noteq> []"
    by (simp add: vertices_def square_ground_def)
  have cs: "coordinates [square_ground] = [0, 10, 10, 0, 0, 0, 10, 10, 0, 0, 0, 0]"
    by (simp add: coordinates_def PolygonList_x_def PolygonList_y_def PolygonList_z_def
        vertices_def square_ground_def)
  have mx: "Max (set (coordinates [square_ground])) = 10"
    unfolding cs by simp
  note T = ratio2meters_max_coordinate [OF ne, where X = sample_ext and now = 8
        and st = "[at_noon]" and observer = "Some 0" and width = 36 and len = 36
        and height = 10 and uniform = False and pf = True and tw = None and tln = None
        and th = None and now' = 9 and x = None and y = None and z = None and r = 0
        and pw = None and pl = None and ph = None and upd = True
        and route = "route_of 1 1" and flag = False]
  show ?thesis
  proof (cases "World_init sample_ext 8 [at_noon] (Some 0) [square_ground] 36 36 10 False True")
    case (Inl e)
    with T show ?thesis by simp
  next
    case (Inr p)
    obtain w st' where p: "p = (w, st')" by (cases p)
    from T [unfolded Inr p mx sum.case prod.case] have "ratio2meters w = 10
        \<and> ((\<forall>c\<in>set (coordinates [square_ground]). - c \<le> 10)
              \<longrightarrow> ratio2meters w = max_abs_coordinate [square_ground])
        \<and> polygons w = [square_ground]"
      by blast
    moreover have "\<forall>c\<in>set (coordinates [square_ground]). - c \<le> 10"
      unfolding cs by simp
    ultimately show ?thesis
      using ne unfolding Inr p by simp
  qed
qed

text \<open>
  With a single vertex \<open>(-5, 1, 2)\<close> the factor is \<open>2\<close>, and the maximum absolute
  coordinate is \<open>5\<close>.
\<close>

theorem ratio2meters_not_max_abs:
  "constructed_factor
     (World_init sample_ext 8 [at_noon] (Some 0) [below_zero] 36 36 10 False True) = Inr 2
   \<and> max_abs_coordinate [below_zero] = 5"
  by (simp add: World_init_def PolygonList_x_def PolygonList_y_def PolygonList_z_def
      vertices_def below_zero_def generate_def ratio2meters_def max_abs_coordinate_def
      coordinates_def constructed_factor_def)

section \<open>The seam\<close>

text \<open>
  Claim C2, as the code has it. The loop compares the column spread of a projected polygon
  (with at least one vertex) with \<^verbatim>\<open>width/2\<close>, an integer division: below it, exactly
  one filled polygon is drawn, with the columns as they are; otherwise exactly two are
  drawn with the same fill colour, one with every column below \<open>width div 2\<close> shifted up
  by \<open>width\<close> and one with every column at or above \<open>width div 2\<close> shifted down by
  \<open>width\<close>. For an even width, \<open>width div 2\<close> is half the width.
\<close>

theorem seam_split:
  assumes "cols q \<noteq> []"
  shows "(Max (set (cols q)) - Min (set (cols q)) < real_of_int (width div 2) \<longrightarrow>
            draw_projected width q = Inr [Draw_polygon (zip (cols q) (rows q)) (fill q)])
       \<and> (real_of_int (width div 2) \<le> Max (set (cols q)) - Min (set (cols q)) \<longrightarrow>
            draw_projected width q =
              Inr [Draw_polygon
                     (zip (map (\<lambda>c. if c < real_of_int (width div 2)
                                      then c + real_of_int width else c) (cols q))
                          (rows q)) (fill q),
                   Draw_polygon
                     (zip (map (\<lambda>c. if real_of_int (width div 2) \<le> c
                                      then c - real_of_int width else c) (cols q))
                          (rows q)) (fill q)])
       \<and> (even width \<longrightarrow> real_of_int (width div 2) = real_of_int width / 2)"
proof -
  have mx: "np_max (cols q) = Inr (Max (set (cols q)))"
    and mn: "np_min (cols q) = Inr (Min (set (cols q)))"
    using assms by (simp_all add: np_max_Inr np_min_Inr)
  have half: "real_of_int (width div 2) = real_of_int width / 2" if "even width"
    using that by (auto elim: evenE)
  show ?thesis
    using half by (simp add: draw_projected_def mx mn Let_def)
qed

theorem seam_split_witness:
  "cols seam_polygon \<noteq> [] \<and> cols inner_polygon \<noteq> []
   \<and> draw_projected 36 seam_polygon =
       Inr [Draw_polygon [(34, 1), (35, 2), (37, 3)] GRASS_COLOUR,
            Draw_polygon [(- 2, 1), (- 1, 2), (1, 3)] GRASS_COLOUR]
   \<and> draw_projected 36 inner_polygon =
       Inr [Draw_polygon [(10, 1), (11, 2), (12, 3)] GRASS_COLOUR]"
proof -
  have ne: "cols seam_polygon \<noteq> []" "cols inner_polygon \<noteq> []"
    by (simp_all add: seam_polygon_def inner_polygon_def)
  have a: "real_of_int (36 div 2) \<le> Max (set (cols seam_polygon)) - Min (set (cols seam_polygon))"
    by (simp add: seam_polygon_def)
  have b: "Max (set (cols inner_polygon)) - Min (set (cols inner_polygon)) < real_of_int (36 div 2)"
    by (simp add: inner_polygon_def)
  have "draw_projected 36 seam_polygon =
       Inr [Draw_polygon [(34, 1), (35, 2), (37, 3)] GRASS_COLOUR,
            Draw_polygon [(- 2, 1), (- 1, 2), (1, 3)] GRASS_COLOUR]"
    using seam_split [OF ne(1), of 36] a by (simp add: seam_polygon_def)
  moreover have "draw_projected 36 inner_polygon =
       Inr [Draw_polygon [(10, 1), (11, 2), (12, 3)] GRASS_COLOUR]"
    using seam_split [OF ne(2), of 36] b by (simp add: inner_polygon_def)
  ultimately show ?thesis using ne by simp
qed

text \<open>
  In an image of 5 columns, a polygon with columns \<open>0\<close> and \<open>9/4\<close> has a spread below
  half the width, and is drawn twice: the threshold is \<open>5 div 2 = 2\<close>.
\<close>

theorem seam_split_odd_width:
  "Max (set (cols narrow_polygon)) - Min (set (cols narrow_polygon)) < real_of_int 5 / 2
   \<and> draw_projected 5 narrow_polygon =
       Inr [Draw_polygon [(5, 0), (9 / 4, 1)] GRASS_COLOUR,
            Draw_polygon [(0, 0), (- 11 / 4, 1)] GRASS_COLOUR]"
  by (simp add: narrow_polygon_def draw_projected_def)

section \<open>Depth order\<close>

lemma draw_polygons_concat:
  "draw_polygons width qs = Inr ops \<Longrightarrow> ops = concat (map (draw_calls width) qs)"
  by (induction qs arbitrary: ops) (auto simp: bind_err_Inr_iff draw_calls_def)

lemma put_pixels_no_polygon:
  "put_pixels X width height i cs = Inr ops \<Longrightarrow> \<forall>d\<in>set ops. \<not> is_polygon d"
proof (induction cs arbitrary: i ops)
  case Nil
  then show ?case by simp
next
  case (Cons c cs)
  then show ?case
    by (auto simp: Let_def bind_err_Inr_iff split: if_splits)
qed

lemma draw_sky_no_polygon:
  assumes "draw_sky X now st w r width height upd omm = Inr (so, w1, st1)"
  shows "\<forall>d\<in>set so. \<not> is_polygon d"
  using assms put_pixels_no_polygon
  by (auto simp: draw_sky_def Let_def bind_err_Inr_iff split: if_splits)

lemma argsort_set: "set (argsort a) = {0..<length a}"
  by (simp add: argsort_def)

lemma sorted_argsort: "sorted (map (\<lambda>i. a ! i) (argsort a))"
  by (simp add: argsort_def)

lemma depth_order_rho:
  "map rho (depth_order qs) = rev (map (\<lambda>i. map rho qs ! i) (argsort (map rho qs)))"
proof -
  have "rho (qs ! i) = map rho qs ! i" if "i \<in> set (argsort (map rho qs))" for i
    using that by (simp add: argsort_set)
  then show ?thesis
    by (simp add: depth_order_def rev_map)
qed

lemma depth_order_sorted: "sorted_wrt (\<ge>) (map rho (depth_order qs))"
proof -
  have "sorted_wrt (\<le>) (map (\<lambda>i. map rho qs ! i) (argsort (map rho qs)))"
    using sorted_argsort [of "map rho qs"] by simp
  then show ?thesis
    by (simp add: depth_order_rho sorted_wrt_rev)
qed

lemma depth_order_mset: "mset (depth_order qs) = mset qs"
proof -
  have "mset (depth_order qs) = image_mset (\<lambda>i. qs ! i) (mset (argsort (map rho qs)))"
    by (simp add: depth_order_def)
  also have "mset (argsort (map rho qs)) = mset [0..<length qs]"
    by (simp add: argsort_def)
  also have "image_mset (\<lambda>i. qs ! i) (mset [0..<length qs]) = mset (map (\<lambda>i. qs ! i) [0..<length qs])"
    by simp
  also have "map (\<lambda>i. qs ! i) [0..<length qs] = qs"
    by (rule map_nth)
  finally show ?thesis .
qed

lemma fmod_pi: "fmod pi (2 * pi) = pi"
  by (simp add: fmod_def)

lemma fmod_zero: "fmod 0 m = 0"
  by (simp add: fmod_def)

lemma pano_square:
  "draw_panoramic_view sample_ext 9 [at_noon] (square_world True) None None None 0
      (Some 4) None (Some 2) True
   = Inr ([New_image 4 2 GROUND_COLOUR, Rectangle 0 0 4 1 SKY_COLOUR,
           Draw_polygon [(2, 0), (2, 0), (2, 0), (2, 0)] GROUND_COLOUR],
          square_world True, [at_noon])"
  by (simp add: draw_panoramic_view_def or_default_def ommatidia_grid_def linspace_def
      draw_sky_def square_world_def Let_def project_polygon_def sample_ext_def
      square_ground_def depth_order_def argsort_def draw_projected_def Polygon_scale_def
      fmod_pi fmod_zero)

lemma draw_panoramic_view_ops:
  assumes "draw_panoramic_view X now st w x y z r width len height upd = Inr (ops, w1, st1)"
  shows "\<exists>sky_ops pos.
      ops = New_image (or_default width (world_width w)) (or_default height (world_height w))
              GROUND_COLOUR
            # sky_ops
            @ concat (map (draw_calls (or_default width (world_width w)))
                (depth_order (map (project_polygon X w1 pos r
                   (or_default width (world_width w)) (or_default len (world_length w))
                   (or_default height (world_height w))) (polygons w))))
    \<and> (\<forall>d\<in>set sky_ops. \<not> is_polygon d)"
proof -
  from draw_panoramic_view_Inr [OF assms] obtain omm sky_ops poly_ops pos where
    sk: "draw_sky X now st w r (or_default width (world_width w))
        (or_default height (world_height w)) upd omm = Inr (sky_ops, w1, st1)"
    and po: "draw_polygons (or_default width (world_width w))
        (depth_order (map (project_polygon X w1 pos r (or_default width (world_width w))
           (or_default len (world_length w)) (or_default height (world_height w)))
           (polygons w1))) = Inr poly_ops"
    and ops: "ops = New_image (or_default width (world_width w))
              (or_default height (world_height w)) GROUND_COLOUR # sky_ops @ poly_ops"
    by blast
  have "polygons w1 = polygons w" using draw_sky_frame [OF sk] by simp
  with draw_polygons_concat [OF po] ops draw_sky_no_polygon [OF sk]
  show ?thesis
    by (intro exI [of _ sky_ops] exI [of _ pos]) simp
qed

lemma la_norm_squares: "la_norm v = sqrt (sum_list (map (\<lambda>d. d ^ 2) v))"
  by (simp add: la_norm_def power2_eq_square)

lemma la_norm_nonneg: "0 \<le> la_norm v"
proof -
  have "0 \<le> sum_list (map (\<lambda>d. d ^ 2) v)" by (rule sum_list_nonneg) auto
  then show ?thesis by (simp add: la_norm_squares)
qed

lemma sqrt_values:
  "sqrt 16 = 4" "sqrt 9 = 3" "sqrt 25 = 5" "sqrt (4 / 9) = 2 / 3" "sqrt (1 / 9) = 1 / 3"
  using real_sqrt_abs2 [of 4] real_sqrt_abs2 [of 3] real_sqrt_abs2 [of 5]
    real_sqrt_abs2 [of "2 / 3"] real_sqrt_abs2 [of "1 / 3"]
  by simp_all

lemma triangles_world_init:
  "World_init far_ext 8 [at_noon] (Some 0) [red_triangle, green_triangle, blue_triangle]
      4 4 4 True True
   = Inr (triangles_world, [at_noon\<lparr>date := 8\<rparr>])"
  by (simp add: World_init_def PolygonList_x_def PolygonList_y_def PolygonList_z_def
      vertices_def red_triangle_def green_triangle_def blue_triangle_def triangles_world_def
      generate_def at_noon_def)

lemma triangles_view:
  "draw_panoramic_view far_ext 9 [at_noon\<lparr>date := 8\<rparr>] triangles_world
      (Some 0) (Some 0) (Some 0) 0 None None None True
   = Inr ([New_image 4 4 GROUND_COLOUR, Rectangle 0 0 4 2 SKY_COLOUR,
           Draw_polygon [(2, 0), (2, 0), (2, 0)] (255, 0, 0),
           Draw_polygon [(2, 0), (2, 0), (2, 0)] (0, 0, 255),
           Draw_polygon [(2, 0), (2, 0), (2, 0)] (0, 255, 0)],
          triangles_world, [at_noon\<lparr>date := 8\<rparr>])"
  by (simp add: draw_panoramic_view_def or_default_def ommatidia_grid_def linspace_def
      draw_sky_def triangles_world_def Let_def project_polygon_def far_ext_def sample_ext_def
      red_triangle_def green_triangle_def blue_triangle_def depth_order_def argsort_def
      draw_projected_def Polygon_scale_def view_position_def ratio2meters_def times3_def
      minus3_def dot_R_def la_norm_def sqrt_values fmod_pi fmod_zero
      upt_rec [of 0] upt_rec [of 1] upt_rec [of 2])

text \<open>
  Claim C3. The polygons are drawn in the order \<open>depth_order\<close>, a rearrangement of the
  projected polygons in which the representative distances never increase; the
  representative distance of a polygon is the Euclidean norm of the distances that the
  projector returns for its vertices, the square root of the sum of their squares. The
  operations of a panoramic view are the new image, then the sky operations, none of
  which is a polygon, then the draw calls of the polygons in that order. Polygons at the
  distances 5, 1, 3 are drawn in the order 5, 3, 1.
\<close>

theorem farthest_first:
  "sorted_wrt (\<ge>) (map rho (depth_order qs))
   \<and> mset (depth_order qs) = mset qs
   \<and> rho (project_polygon X w pos r wd lgt ht p) =
       sqrt (sum_list (map (\<lambda>d. d ^ 2)
         (map (\<lambda>v. case vec2sph X v of (theta, phi, rh) \<Rightarrow> rh)
           (map (\<lambda>v. dot_R r (minus3 (times3 v (real_of_int wd, real_of_int lgt, real_of_int ht)) pos))
              (xyz (Polygon_scale X (ratio2meters w) (ratio2meters w) (ratio2meters w) p))))))
   \<and> 0 \<le> rho (project_polygon X w pos r wd lgt ht p)
   \<and> (case draw_panoramic_view X now st w x y z r width len height upd of
         Inl e \<Rightarrow> True
       | Inr (ops, w1, st1) \<Rightarrow>
           (\<exists>sky_ops pos.
              ops = New_image (or_default width (world_width w))
                      (or_default height (world_height w)) GROUND_COLOUR
                    # sky_ops
                    @ concat (map (draw_calls (or_default width (world_width w)))
                        (depth_order (map (project_polygon X w1 pos r
                           (or_default width (world_width w)) (or_default len (world_length w))
                           (or_default height (world_height w))) (polygons w))))
            \<and> (\<forall>d\<in>set sky_ops. \<not> is_polygon d)))"
proof -
  have norm: "rho (project_polygon X w pos r wd lgt ht p) =
       sqrt (sum_list (map (\<lambda>d. d ^ 2)
         (map (\<lambda>v. case vec2sph X v of (theta, phi, rh) \<Rightarrow> rh)
           (map (\<lambda>v. dot_R r (minus3 (times3 v (real_of_int wd, real_of_int lgt, real_of_int ht)) pos))
              (xyz (Polygon_scale X (ratio2meters w) (ratio2meters w) (ratio2meters w) p))))))"
    by (simp add: project_polygon_def Let_def comp_def la_norm_squares)
  have nonneg: "0 \<le> rho (project_polygon X w pos r wd lgt ht p)"
    by (simp add: project_polygon_def Let_def la_norm_nonneg)
  have pan: "case draw_panoramic_view X now st w x y z r width len height upd of
         Inl e \<Rightarrow> True
       | Inr (ops, w1, st1) \<Rightarrow>
           (\<exists>sky_ops pos.
              ops = New_image (or_default width (world_width w))
                      (or_default height (world_height w)) GROUND_COLOUR
                    # sky_ops
                    @ concat (map (draw_calls (or_default width (world_width w)))
                        (depth_order (map (project_polygon X w1 pos r
                           (or_default width (world_width w)) (or_default len (world_length w))
                           (or_default height (world_height w))) (polygons w))))
            \<and> (\<forall>d\<in>set sky_ops. \<not> is_polygon d))"
  proof (cases "draw_panoramic_view X now st w x y z r width len height upd")
    case (Inl e)
    then show ?thesis by simp
  next
    case (Inr t)
    obtain ops w1 st1 where t: "t = (ops, w1, st1)" by (cases t)
    show ?thesis
      unfolding Inr t using draw_panoramic_view_ops [OF Inr [unfolded t]] by simp
  qed
  show ?thesis
    using depth_order_sorted depth_order_mset norm nonneg pan by blast
qed

theorem farthest_first_witness:
  "map rho (depth_order [at_distance 5, at_distance 1, at_distance 3]) = [5, 3, 1]
   \<and> World_init far_ext 8 [at_noon] (Some 0) [red_triangle, green_triangle, blue_triangle]
        4 4 4 True True
      = Inr (triangles_world, [at_noon\<lparr>date := 8\<rparr>])
   \<and> map rho (map (project_polygon far_ext triangles_world (0, 0, 0) 0 4 4 4)
        [red_triangle, green_triangle, blue_triangle]) = [5, 1, 3]
   \<and> draw_panoramic_view far_ext 9 [at_noon\<lparr>date := 8\<rparr>] triangles_world
        (Some 0) (Some 0) (Some 0) 0 None None None True
      = Inr ([New_image 4 4 GROUND_COLOUR, Rectangle 0 0 4 2 SKY_COLOUR,
              Draw_polygon [(2, 0), (2, 0), (2, 0)] (255, 0, 0),
              Draw_polygon [(2, 0), (2, 0), (2, 0)] (0, 0, 255),
              Draw_polygon [(2, 0), (2, 0), (2, 0)] (0, 255, 0)],
             triangles_world, [at_noon\<lparr>date := 8\<rparr>])"
proof -
  have a: "map rho (depth_order [at_distance 5, at_distance 1, at_distance 3]) = [5, 3, 1]"
    by (simp add: depth_order_def argsort_def at_distance_def upt_rec [of 0] upt_rec [of 1]
        upt_rec [of 2])
  note R = farthest_first [where X = far_ext and w = triangles_world and pos = "(0, 0, 0)"
      and r = 0 and wd = 4 and lgt = 4 and ht = 4 and p = red_triangle,
      THEN conjunct2, THEN conjunct2, THEN conjunct1]
  note G = farthest_first [where X = far_ext and w = triangles_world and pos = "(0, 0, 0)"
      and r = 0 and wd = 4 and lgt = 4 and ht = 4 and p = green_triangle,
      THEN conjunct2, THEN conjunct2, THEN conjunct1]
  note B = farthest_first [where X = far_ext and w = triangles_world and pos = "(0, 0, 0)"
      and r = 0 and wd = 4 and lgt = 4 and ht = 4 and p = blue_triangle,
      THEN conjunct2, THEN conjunct2, THEN conjunct1]
  have f: "ratio2meters triangles_world = 2"
    by (simp add: ratio2meters_def triangles_world_def)
  have red: "rho (project_polygon far_ext triangles_world (0, 0, 0) 0 4 4 4 red_triangle) = 5"
    unfolding R
    by (simp add: f Polygon_scale_def far_ext_def sample_ext_def red_triangle_def times3_def
        minus3_def dot_R_def power2_eq_square sqrt_values)
  have green: "rho (project_polygon far_ext triangles_world (0, 0, 0) 0 4 4 4 green_triangle) = 1"
    unfolding G
    by (simp add: f Polygon_scale_def far_ext_def sample_ext_def green_triangle_def times3_def
        minus3_def dot_R_def power2_eq_square sqrt_values)
  have blue: "rho (project_polygon far_ext triangles_world (0, 0, 0) 0 4 4 4 blue_triangle) = 3"
    unfolding B
    by (simp add: f Polygon_scale_def far_ext_def sample_ext_def blue_triangle_def times3_def
        minus3_def dot_R_def power2_eq_square sqrt_values)
  show ?thesis
    using a triangles_world_init triangles_view red green blue by simp
qed

section \<open>The sensor grid\<close>

lemma linspace_open:
  assumes "0 \<le> n"
  shows "linspace a b n False = Inr (map (\<lambda>i. a + real i * ((b - a) / real (nat n))) [0..<nat n])"
proof (cases "n = 0")
  case True
  then show ?thesis by (simp add: linspace_def)
next
  case False
  with assms have "0 < n" by simp
  then show ?thesis by (simp add: linspace_def Let_def)
qed

lemma affine_increasing:
  assumes "0 < d"
  shows "sorted_wrt (<) (map (\<lambda>i. a + real i * d) [0..<n])"
  using assms by (simp add: sorted_wrt_iff_nth_less)

lemma affine_decreasing:
  assumes "d < 0"
  shows "sorted_wrt (>) (map (\<lambda>i. a + real i * d) [0..<n])"
  using assms by (simp add: sorted_wrt_iff_nth_less mult_less_cancel_right)

lemma fraction_below:
  fixes c :: real
  assumes "i < n" and "0 < c"
  shows "real i * (c / real n) < c"
proof -
  have n: "0 < real n" using assms by simp
  have "real i / real n < 1" using assms n by simp
  then have "c * (real i / real n) < c * 1"
    using assms(2) by (simp only: mult_less_cancel_left_pos)
  then show ?thesis by (simp add: mult.commute)
qed

lemma length_cross:
  "length (concat (map (\<lambda>a. map (\<lambda>e. (e, a)) el) az)) = length az * length el"
  by (induction az) simp_all

text \<open>
  Claim C4. For a width and a height that are not negative, the grid of directions is the
  cross product of \<open>width\<close> azimuth samples and \<open>height div 2\<close> elevation samples, so it
  has \<open>width * (height div 2)\<close> pairs. The azimuths increase strictly from \<open>-\<pi>\<close> and stay
  below \<open>\<pi>\<close>, so the start is not repeated; the elevations decrease strictly from
  \<open>\<pi>/2\<close> and stay above \<open>0\<close>. For width 36 and height 10 there are 180 directions.
\<close>

theorem sensor_grid:
  assumes "0 \<le> width" and "0 \<le> height"
  shows "\<exists>az el.
       linspace (- pi) pi width False = Inr az
     \<and> linspace (pi / 2) 0 (height div 2) False = Inr el
     \<and> ommatidia_grid width height = Inr (concat (map (\<lambda>a. map (\<lambda>e. (e, a)) el) az))
     \<and> length (concat (map (\<lambda>a. map (\<lambda>e. (e, a)) el) az)) = nat width * nat (height div 2)
     \<and> length az = nat width
     \<and> length el = nat (height div 2)
     \<and> sorted_wrt (<) az
     \<and> (\<forall>a\<in>set az. - pi \<le> a \<and> a < pi)
     \<and> (0 < width \<longrightarrow> hd az = - pi)
     \<and> sorted_wrt (>) el
     \<and> (\<forall>e\<in>set el. 0 < e \<and> e \<le> pi / 2)
     \<and> (0 < height div 2 \<longrightarrow> hd el = pi / 2)"
proof -
  define W where "W = nat width"
  define H where "H = nat (height div 2)"
  define az where "az = map (\<lambda>i. - pi + real i * ((pi - - pi) / real W)) [0..<W]"
  define el where "el = map (\<lambda>i. pi / 2 + real i * ((0 - pi / 2) / real H)) [0..<H]"
  have h2: "0 \<le> height div 2" using assms(2) by simp
  have laz: "linspace (- pi) pi width False = Inr az"
    unfolding az_def W_def by (rule linspace_open [OF assms(1)])
  have lel: "linspace (pi / 2) 0 (height div 2) False = Inr el"
    unfolding el_def H_def by (rule linspace_open [OF h2])
  have grid: "ommatidia_grid width height = Inr (concat (map (\<lambda>a. map (\<lambda>e. (e, a)) el) az))"
    by (simp add: ommatidia_grid_def laz lel)
  have len_az: "length az = nat width" by (simp add: az_def W_def)
  have len_el: "length el = nat (height div 2)" by (simp add: el_def H_def)
  have len: "length (concat (map (\<lambda>a. map (\<lambda>e. (e, a)) el) az)) = nat width * nat (height div 2)"
    by (simp add: length_cross len_az len_el)
  have inc: "sorted_wrt (<) az"
  proof (cases "W = 0")
    case True
    then show ?thesis by (simp add: az_def)
  next
    case False
    then have "0 < (pi - - pi) / real W" by simp
    then show ?thesis unfolding az_def by (rule affine_increasing)
  qed
  have az_range: "\<forall>a\<in>set az. - pi \<le> a \<and> a < pi"
  proof
    fix a assume "a \<in> set az"
    then obtain i where i: "i < W" and a: "a = - pi + real i * ((pi - - pi) / real W)"
      by (auto simp: az_def)
    have "0 \<le> real i * ((pi - - pi) / real W)" by simp
    moreover have "real i * ((pi - - pi) / real W) < pi - - pi"
      by (rule fraction_below [OF i]) simp
    ultimately show "- pi \<le> a \<and> a < pi" using a by simp
  qed
  have az_hd: "0 < width \<longrightarrow> hd az = - pi"
  proof
    assume "0 < width"
    then have "0 < W" by (simp add: W_def)
    then show "hd az = - pi" by (simp add: az_def hd_map upt_conv_Cons)
  qed
  have dec: "sorted_wrt (>) el"
  proof (cases "H = 0")
    case True
    then show ?thesis by (simp add: el_def)
  next
    case False
    then have "(0 - pi / 2) / real H < 0" by (simp add: divide_neg_pos)
    then show ?thesis unfolding el_def by (rule affine_decreasing)
  qed
  have el_range: "\<forall>e\<in>set el. 0 < e \<and> e \<le> pi / 2"
  proof
    fix e assume "e \<in> set el"
    then obtain i where i: "i < H" and e: "e = pi / 2 + real i * ((0 - pi / 2) / real H)"
      by (auto simp: el_def)
    have eq: "real i * ((0 - pi / 2) / real H) = - (real i * ((pi / 2) / real H))"
      by simp
    have "0 \<le> real i * ((pi / 2) / real H)" by simp
    moreover have "real i * ((pi / 2) / real H) < pi / 2"
      by (rule fraction_below [OF i]) simp
    ultimately show "0 < e \<and> e \<le> pi / 2" unfolding e eq by linarith
  qed
  have el_hd: "0 < height div 2 \<longrightarrow> hd el = pi / 2"
  proof
    assume "0 < height div 2"
    then have "0 < H" by (simp add: H_def)
    then show "hd el = pi / 2" by (simp add: el_def hd_map upt_conv_Cons)
  qed
  show ?thesis
    using laz lel grid len len_az len_el inc az_range az_hd dec el_range el_hd by blast
qed

theorem sensor_grid_witness:
  "(0::int) \<le> 36 \<and> (0::int) \<le> 10
   \<and> (\<exists>g. ommatidia_grid 36 10 = Inr g \<and> length g = 180)"
proof -
  from sensor_grid [of 36 10] obtain az el where
    g: "ommatidia_grid 36 10 = Inr (concat (map (\<lambda>a. map (\<lambda>e. (e, a)) el) az))"
    and l: "length (concat (map (\<lambda>a. map (\<lambda>e. (e, a)) el) az)) = nat 36 * nat (10 div 2)"
    by auto
  have "nat 36 * nat (10 div 2) = (180::nat)" by simp
  with g l show ?thesis by simp
qed

section \<open>Configuration\<close>

lemma ommatidia_grid_total:
  assumes "0 \<le> width" and "0 \<le> height"
  shows "\<exists>g. ommatidia_grid width height = Inr g"
proof -
  have "0 \<le> height div 2" using assms(2) by simp
  then show ?thesis
    by (simp add: ommatidia_grid_def linspace_open [OF assms(1)] linspace_open)
qed

lemma ommatidia_grid_negative:
  assumes "width < 0 \<or> height < 0"
  shows "ommatidia_grid width height = Inl ValueError"
proof (cases "width < 0")
  case True
  then show ?thesis by (simp add: ommatidia_grid_def linspace_def)
next
  case False
  with assms have "height div 2 < 0" by simp
  with False show ?thesis by (simp add: ommatidia_grid_def linspace_def Let_def)
qed

lemma draw_projected_total:
  assumes "cols q \<noteq> []"
  shows "\<exists>calls. draw_projected width q = Inr calls"
  using assms by (simp add: draw_projected_def np_max_Inr np_min_Inr Let_def)

lemma draw_polygons_total:
  assumes "\<forall>q\<in>set qs. cols q \<noteq> []"
  shows "\<exists>ops. draw_polygons width qs = Inr ops"
  using assms
proof (induction qs)
  case Nil
  then show ?case by simp
next
  case (Cons q qs)
  then obtain calls rest where "draw_projected width q = Inr calls"
    and "draw_polygons width qs = Inr rest"
    using draw_projected_total [of q width] by auto
  then show ?case by simp
qed

lemma depth_order_set: "set (depth_order qs) = set qs"
  using depth_order_mset [of qs] by (metis set_mset_mset)

lemma cols_project_polygon:
  "cols (project_polygon X w pos r width len height p) = [] \<longleftrightarrow> xyz p = []"
  by (simp add: project_polygon_def Let_def Polygon_scale_def)

lemma uniform_panoramic_total:
  assumes "0 \<le> width" and "0 \<le> height" and "uniform_sky w"
    and "\<forall>p\<in>set (polygons w). xyz p \<noteq> []"
  shows "\<exists>ops. draw_panoramic_view X now st w x y z r (Some width) len (Some height) upd
            = Inr (New_image width height GROUND_COLOUR
                   # Rectangle 0 0 width (height div 2) SKY_COLOUR # ops, w, st)"
proof -
  obtain g where g: "ommatidia_grid width height = Inr g"
    using ommatidia_grid_total [OF assms(1,2)] by blast
  have sk: "draw_sky X now st w r width height upd g
      = Inr ([Rectangle 0 0 width (height div 2) SKY_COLOUR], w, st)"
    using assms(3) by (simp add: draw_sky_def)
  let ?qs = "map (project_polygon X w
      (view_position w (or_default x (real_of_int width / 2))
         (or_default y (real_of_int (or_default len (world_length w)) / 2))
         (or_default z (real_of_int height / 2 + 6 / 100 * real_of_int height))
         width (or_default len (world_length w)) height)
      r width (or_default len (world_length w)) height) (polygons w)"
  have "\<forall>q\<in>set (depth_order ?qs). cols q \<noteq> []"
    using assms(4) by (auto simp: depth_order_set cols_project_polygon)
  then obtain ops where "draw_polygons width (depth_order ?qs) = Inr ops"
    using draw_polygons_total by blast
  then show ?thesis
    by (simp add: draw_panoramic_view_def Let_def g sk or_default_def)
qed

text \<open>
  Claim C5, as the code has it. The code makes no configuration check and has no
  configuration error. Constructing a world from a polygon set with at least one vertex
  always succeeds, also when every coordinate is zero, and the factor is then zero; from a
  polygon set without vertices it fails with the ValueError of the maximum of an empty
  array, before anything is stored. The panoramic view fails with the ValueError of the
  grid construction, before the image is created, when the width or the height is
  negative; there is no check of parity: with a uniform sky, polygons that have vertices,
  and a positive width and height (the width odd or even, the length of any sign), it
  returns the complete list of operations.
\<close>

theorem no_configuration_check:
  "(vertices ps \<noteq> [] \<longrightarrow>
      (\<exists>v st'. World_init X now st observer ps width len height uniform pf = Inr (v, st')))
   \<and> (vertices ps \<noteq> [] \<and> (\<forall>c\<in>set (coordinates ps). c = 0) \<longrightarrow>
      (\<exists>v st'. World_init X now st observer ps width len height uniform pf = Inr (v, st')
         \<and> ratio2meters v = 0))
   \<and> (vertices ps = [] \<longrightarrow>
      World_init X now st observer ps width len height uniform pf = Inl ValueError)
   \<and> (or_default pw (world_width w) < 0 \<or> or_default ph (world_height w) < 0 \<longrightarrow>
      draw_panoramic_view X now st w x y z r pw pl ph upd = Inl ValueError)
   \<and> (0 < wd \<and> 0 < ht \<and> uniform_sky w \<and> (\<forall>p\<in>set (polygons w). xyz p \<noteq> []) \<longrightarrow>
      (\<exists>ops. draw_panoramic_view X now st w x y z r (Some wd) pl (Some ht) upd
          = Inr (New_image wd ht GROUND_COLOUR
                 # Rectangle 0 0 wd (ht div 2) SKY_COLOUR # ops, w, st)))"
proof -
  have a: "\<exists>v st'. World_init X now st observer ps width len height uniform pf = Inr (v, st')"
    if "vertices ps \<noteq> []"
    using World_init_Inr [OF that] by blast
  have b: "\<exists>v st'. World_init X now st observer ps width len height uniform pf = Inr (v, st')
         \<and> ratio2meters v = 0"
    if ne: "vertices ps \<noteq> []" and z: "\<forall>c\<in>set (coordinates ps). c = 0"
  proof -
    have "coordinates ps \<noteq> []"
      using ne by (simp add: coordinates_def PolygonList_x_def)
    with z have "set (coordinates ps) = {0}" by (cases "coordinates ps") auto
    then have "Max (set (coordinates ps)) = 0" by simp
    with World_init_Inr [OF ne] show ?thesis
      by (metis ratio2meters_def)
  qed
  have c: "World_init X now st observer ps width len height uniform pf = Inl ValueError"
    if "vertices ps = []"
    using that by (rule World_init_empty)
  have d: "draw_panoramic_view X now st w x y z r pw pl ph upd = Inl ValueError"
    if "or_default pw (world_width w) < 0 \<or> or_default ph (world_height w) < 0"
    using ommatidia_grid_negative [OF that]
    by (simp add: draw_panoramic_view_def Let_def)
  have e: "\<exists>ops. draw_panoramic_view X now st w x y z r (Some wd) pl (Some ht) upd
          = Inr (New_image wd ht GROUND_COLOUR
                 # Rectangle 0 0 wd (ht div 2) SKY_COLOUR # ops, w, st)"
    if "0 < wd \<and> 0 < ht \<and> uniform_sky w \<and> (\<forall>p\<in>set (polygons w). xyz p \<noteq> [])"
    using that uniform_panoramic_total [of wd ht w] by simp
  show ?thesis using a b c d e by blast
qed

theorem no_configuration_check_witness:
  "vertices [all_zero] \<noteq> [] \<and> set (coordinates [all_zero]) = {0}
   \<and> (\<exists>v st'. World_init sample_ext 8 [at_noon] (Some 0) [all_zero] 36 36 10 False True
          = Inr (v, st') \<and> ratio2meters v = 0)
   \<and> vertices [] = []
   \<and> World_init sample_ext 8 [at_noon] (Some 0) [] 36 36 10 False True = Inl ValueError
   \<and> draw_panoramic_view sample_ext 9 [at_noon] (square_world True) None None None 0
        (Some (- 1)) None None True = Inl ValueError
   \<and> (\<exists>ops. draw_panoramic_view sample_ext 9 [at_noon] (square_world True) None None None 0
        (Some 5) None (Some 3) True
        = Inr (New_image 5 3 GROUND_COLOUR # Rectangle 0 0 5 1 SKY_COLOUR # ops,
               square_world True, [at_noon]))"
proof -
  have ne: "vertices [all_zero] \<noteq> []"
    by (simp add: vertices_def all_zero_def)
  have z: "\<forall>c\<in>set (coordinates [all_zero]). c = 0"
    by (simp add: coordinates_def PolygonList_x_def PolygonList_y_def PolygonList_z_def
        vertices_def all_zero_def)
  have e: "vertices [] = []" by (simp add: vertices_def)
  have neg: "or_default (Some (- 1)) (world_width (square_world True)) < 0
     \<or> or_default None (world_height (square_world True)) < 0"
    by (simp add: or_default_def)
  have u: "(0::int) < 5 \<and> (0::int) < 3 \<and> uniform_sky (square_world True)
     \<and> (\<forall>p\<in>set (polygons (square_world True)). xyz p \<noteq> [])"
    by (simp add: square_world_def square_ground_def)
  note T1 = no_configuration_check [where ps = "[all_zero]" and X = sample_ext and now = 8
      and st = "[at_noon]" and observer = "Some 0" and width = 36 and len = 36
      and height = 10 and uniform = False and pf = True and w = "square_world True"
      and pw = "Some (- 1)" and ph = None and x = None and y = None and z = None and r = 0
      and pl = None and upd = True and wd = 5 and ht = 3]
  note T2 = no_configuration_check [where ps = "[]" and X = sample_ext and now = 9
      and st = "[at_noon]" and observer = "Some 0" and width = 36 and len = 36
      and height = 10 and uniform = False and pf = True and w = "square_world True"
      and pw = "Some (- 1)" and ph = None and x = None and y = None and z = None and r = 0
      and pl = None and upd = True and wd = 5 and ht = 3]
  have A: "\<exists>v st'. World_init sample_ext 8 [at_noon] (Some 0) [all_zero] 36 36 10 False True
          = Inr (v, st') \<and> ratio2meters v = 0"
    using T1 ne z by blast
  have B: "World_init sample_ext 8 [at_noon] (Some 0) [] 36 36 10 False True = Inl ValueError"
    using no_configuration_check [where ps = "[]" and X = sample_ext and now = 8
      and st = "[at_noon]" and observer = "Some 0" and width = 36 and len = 36
      and height = 10 and uniform = False and pf = True] e by blast
  have C: "draw_panoramic_view sample_ext 9 [at_noon] (square_world True) None None None 0
        (Some (- 1)) None None True = Inl ValueError"
    using T2 neg by blast
  have D: "\<exists>ops. draw_panoramic_view sample_ext 9 [at_noon] (square_world True) None None None 0
        (Some 5) None (Some 3) True
        = Inr (New_image 5 3 GROUND_COLOUR # Rectangle 0 0 5 (3 div 2) SKY_COLOUR # ops,
               square_world True, [at_noon])"
    using T2 u by blast
  have z': "set (coordinates [all_zero]) = {0}"
    by (simp add: coordinates_def PolygonList_x_def PolygonList_y_def PolygonList_z_def
        vertices_def all_zero_def)
  show ?thesis using ne z' A e B C D by simp
qed

text \<open>
  A polygon set whose coordinates are all zero constructs a world, with factor zero, and
  a panoramic view of width 5 is drawn.
\<close>

theorem zero_scale_and_odd_width_accepted:
  "constructed_factor
     (World_init sample_ext 8 [at_noon] (Some 0) [all_zero] 36 36 10 False True) = Inr 0
   \<and> draw_panoramic_view sample_ext 9 [at_noon] (square_world True) None None None 0
        (Some 5) None (Some 2) True
      = Inr ([New_image 5 2 GROUND_COLOUR, Rectangle 0 0 5 1 SKY_COLOUR,
              Draw_polygon [(5 / 2, 0), (5 / 2, 0), (5 / 2, 0), (5 / 2, 0)] GROUND_COLOUR],
             square_world True, [at_noon])"
proof -
  have "constructed_factor
     (World_init sample_ext 8 [at_noon] (Some 0) [all_zero] 36 36 10 False True) = Inr 0"
    by (simp add: World_init_def PolygonList_x_def PolygonList_y_def PolygonList_z_def
      vertices_def all_zero_def generate_def ratio2meters_def constructed_factor_def)
  moreover have "draw_panoramic_view sample_ext 9 [at_noon] (square_world True) None None None 0
        (Some 5) None (Some 2) True
      = Inr ([New_image 5 2 GROUND_COLOUR, Rectangle 0 0 5 1 SKY_COLOUR,
              Draw_polygon [(5 / 2, 0), (5 / 2, 0), (5 / 2, 0), (5 / 2, 0)] GROUND_COLOUR],
             square_world True, [at_noon])"
    by (simp add: draw_panoramic_view_def or_default_def ommatidia_grid_def linspace_def
      draw_sky_def square_world_def Let_def project_polygon_def sample_ext_def
      square_ground_def depth_order_def argsort_def draw_projected_def Polygon_scale_def
      fmod_pi fmod_zero)
  ultimately show ?thesis by simp
qed

section \<open>The top view without routes\<close>

lemma draw_top_view_no_routes:
  "routes w = [] \<Longrightarrow> draw_top_view X w tw tln th = Inl ValueError"
  by (simp add: draw_top_view_def Let_def)

text \<open>
  Claim C6. The world of the single square ground polygon, with no route added, rendered
  from the top at 50 by 50: the maximum of the empty array of agent numbers raises
  ValueError after the polygons are drawn, and no image is returned.
\<close>

theorem top_view_without_routes_fails:
  "bind_err (World_init sample_ext 8 [at_noon] (Some 0) [square_ground] 36 36 10 False True)
     (\<lambda>(w, st'). draw_top_view sample_ext w (Some 50) (Some 50) None) = Inl ValueError"
  by (simp add: World_init_def PolygonList_x_def PolygonList_y_def PolygonList_z_def
      vertices_def square_ground_def generate_def draw_top_view_def Let_def)

section \<open>Route colours\<close>

lemma double_values:
  "double 1 = 1" "double 6 = 6" "double (1 / 2) = 1 / 2" "double (255 / 2) = 255 / 2"
  "double 255 = 255" "double 510 = 510" "double (- 255) = - 255"
  by (simp_all add: double_exact exact_def)




lemma sample_double_first: "sample_double 0 1 n True 0 = 0"
  by (simp add: sample_double_def Let_def)

lemma sample_double_last:
  assumes "1 < n"
  shows "sample_double 0 1 n True (nat (n - 1)) = 1"
  using assms by (simp add: sample_double_def Let_def)

lemma unit_samples:
  "linspace_double 0 1 1 True = Inr [0]" "linspace_double 0 1 2 True = Inr [0, 1]"
  using sample_double_last [of 2]
  by (simp_all add: linspace_double_def sample_double_first upt_rec [of 0]
      upt_rec [of "Suc 0"] numeral_2_eq_2)


lemma Route_scale_ids [simp]:
  "agent_no (Route_scale X fx fy fz rt) = agent_no rt"
  "route_no (Route_scale X fx fy fz rt) = route_no rt"
  by (simp_all add: Route_scale_def)








section \<open>Sky pixels\<close>








section \<open>Repeated renders\<close>

lemma draw_sky_no_update:
  "draw_sky X now st w r width height False omm =
   (if uniform_sky w then Inr ([Rectangle 0 0 width (height div 2) SKY_COLOUR], w, st)
    else bind_err (put_pixels X width height 0
            (eye_L X \<lparr>ommatidia = omm, pol_filters = world_pol_filters w,
                       facing_direction = - r, eye_sky = Some (sky w)\<rparr>))
           (\<lambda>pixels. Inr (pixels,
              w\<lparr>sky := sky w, eye := Some \<lparr>ommatidia = omm, pol_filters = world_pol_filters w,
                       facing_direction = - r, eye_sky = Some (sky w)\<rparr>\<rparr>, st)))"
  by (simp add: draw_sky_def Let_def)

lemma draw_sky_again:
  assumes "draw_sky X now st w r width height False omm = Inr (so, w1, st1)"
  shows "st1 = st \<and> draw_sky X now' st' w1 r width height False omm = Inr (so, w1, st')"
  using assms
  by (auto simp: draw_sky_no_update bind_err_Inr_iff split: if_splits)

lemma draw_sky_ops_only:
  "map_sum id fst (draw_sky X now st w r width height False omm) =
   map_sum id fst (draw_sky X now' st' w r width height False omm)"
  by (cases "put_pixels X width height 0
            (eye_L X \<lparr>ommatidia = omm, pol_filters = world_pol_filters w,
                       facing_direction = - r, eye_sky = Some (sky w)\<rparr>)")
     (simp_all add: draw_sky_no_update)

lemma draw_panoramic_view_again:
  assumes "draw_panoramic_view X now st w x y z r width len height False = Inr (ops, w1, st1)"
  shows "st1 = st
     \<and> draw_panoramic_view X now' st' w1 x y z r width len height False = Inr (ops, w1, st')"
proof -
  let ?wd = "or_default width (world_width w)"
  let ?ln = "or_default len (world_length w)"
  let ?ht = "or_default height (world_height w)"
  from draw_panoramic_view_Inr [OF assms] obtain omm sky_ops poly_ops where
    g: "ommatidia_grid ?wd ?ht = Inr omm"
    and sk: "draw_sky X now st w r ?wd ?ht False omm = Inr (sky_ops, w1, st1)"
    and po: "draw_polygons ?wd
        (depth_order (map (project_polygon X w1
           (view_position w1 (or_default x (real_of_int ?wd / 2))
              (or_default y (real_of_int ?ln / 2))
              (or_default z (real_of_int ?ht / 2 + 6 / 100 * real_of_int ?ht))
              ?wd ?ln ?ht) r ?wd ?ln ?ht) (polygons w1))) = Inr poly_ops"
    and ops: "ops = New_image ?wd ?ht GROUND_COLOUR # sky_ops @ poly_ops"
    by blast
  from draw_sky_frame [OF sk] have fr: "world_width w1 = world_width w"
    "world_length w1 = world_length w" "world_height w1 = world_height w"
    by simp_all
  from draw_sky_again [OF sk] have st: "st1 = st"
    and sk': "draw_sky X now' st' w1 r ?wd ?ht False omm = Inr (sky_ops, w1, st')"
    by simp_all
  have "draw_panoramic_view X now' st' w1 x y z r width len height False = Inr (ops, w1, st')"
    unfolding draw_panoramic_view_def Let_def fr
    using po by (simp add: g sk' ops)
  with st show ?thesis by simp
qed

lemma draw_panoramic_view_ops_only:
  "map_sum id fst (draw_panoramic_view X now st w x y z r width len height False) =
   map_sum id fst (draw_panoramic_view X now' st' w x y z r width len height False)"
proof -
  let ?wd = "or_default width (world_width w)"
  let ?ht = "or_default height (world_height w)"
  show ?thesis
  proof (cases "ommatidia_grid ?wd ?ht")
    case (Inl e)
    then show ?thesis by (simp add: draw_panoramic_view_def Let_def)
  next
    case (Inr omm)
    show ?thesis
    proof (cases "draw_sky X now st w r ?wd ?ht False omm")
      case (Inl e)
      with draw_sky_ops_only [of X now st w r ?wd ?ht omm now' st']
      have "\<exists>e'. draw_sky X now' st' w r ?wd ?ht False omm = Inl e'"
        by (cases "draw_sky X now' st' w r ?wd ?ht False omm") simp_all
      with Inl draw_sky_ops_only [of X now st w r ?wd ?ht omm now' st'] Inr show ?thesis
        by (auto simp: draw_panoramic_view_def Let_def)
    next
      case (Inr t)
      obtain so w1 st1 where t: "t = (so, w1, st1)" by (cases t)
      from draw_sky_again [OF Inr [unfolded t], of now' st'] draw_sky_again [OF Inr [unfolded t], of now st]
      have a: "draw_sky X now' st' w1 r ?wd ?ht False omm = Inr (so, w1, st')"
        and b: "st1 = st" by simp_all
      have c: "draw_sky X now' st' w r ?wd ?ht False omm = Inr (so, w1, st')"
        using Inr [unfolded t]
        by (auto simp: draw_sky_no_update bind_err_Inr_iff split: if_splits)
      show ?thesis
        using \<open>ommatidia_grid ?wd ?ht = Inr omm\<close> Inr [unfolded t] c
        by (simp add: draw_panoramic_view_def Let_def bind_err_def split: sum.splits)
    qed
  qed
qed

text \<open>
  Claim C9. A top view leaves the world as it was, so a second top view of the same world
  with the same parameters returns the same operations. A panoramic view without the sky
  update leaves the store of the observers as it was, and a second view of the world it
  leaves, at any other time, returns the same operations and the same world; its
  operations do not depend on the time of the call or on the store. The collaborators
  are functions of their arguments in this model.
\<close>

theorem renders_repeat:
  "(draw_top_view X w tw tln th = Inr (ops, w') \<longrightarrow>
       w' = w \<and> draw_top_view X w' tw tln th = Inr (ops, w'))
   \<and> (draw_panoramic_view X now st v x y z r pw pl ph False = Inr (pops, v1, st1) \<longrightarrow>
       st1 = st
     \<and> draw_panoramic_view X now' st1 v1 x y z r pw pl ph False = Inr (pops, v1, st1))
   \<and> map_sum id fst (draw_panoramic_view X now st v x y z r pw pl ph False) =
     map_sum id fst (draw_panoramic_view X now' st' v x y z r pw pl ph False)"
proof -
  have a: "w' = w \<and> draw_top_view X w' tw tln th = Inr (ops, w')"
    if "draw_top_view X w tw tln th = Inr (ops, w')"
    using that draw_top_view_world [OF that] by simp
  have b: "st1 = st
     \<and> draw_panoramic_view X now' st1 v1 x y z r pw pl ph False = Inr (pops, v1, st1)"
    if "draw_panoramic_view X now st v x y z r pw pl ph False = Inr (pops, v1, st1)"
    using draw_panoramic_view_again [OF that, of now' st] by auto
  show ?thesis
    using a b draw_panoramic_view_ops_only by blast
qed

lemma two_routes_top_view:
  "draw_top_view sample_ext two_routes_world (Some 50) (Some 50) (Some 10) =
       Inr ([New_image 50 50 GROUND_COLOUR,
             Draw_polygon [(0, 0), (50, 0), (50, 50), (0, 50)] GROUND_COLOUR,
             Draw_line [(5, 5), (10, 15)] (127, 127, 127),
             Draw_line [(5, 5), (10, 15)] (127, 127, 127)], two_routes_world)"
  by (simp add: draw_top_view_def two_routes_world_def add_route_def square_world_def
      or_default_def Let_def top_polygon_def Polygon_scale_def sample_ext_def square_ground_def
      times3_def xy_def ratio2meters_def route_of_def top_route_def Route_scale_def
      route_fill_def route_hue_def route_saturation_def unit_samples getitem_def
      colorsys_hsv_to_rgb_def py_int_def double_values)

lemma grid_2_2: "ommatidia_grid 2 2 = Inr [(pi / 2, - pi), (pi / 2, 0)]"
  by (simp add: ommatidia_grid_def linspace_def upt_rec [of 0] upt_rec [of 1] nat_2
      numeral_2_eq_2)

lemma sampled_panoramic_view:
  "draw_panoramic_view sample_ext t [at_noon] (square_world False) None None None 0
      (Some 2) None (Some 2) False
   = Inr ([New_image 2 2 GROUND_COLOUR, Put_pixel 0 0 (127, 127, 255),
           Put_pixel 1 0 (127, 127, 255),
           Draw_polygon [(1, 0), (1, 0), (1, 0), (1, 0)] GROUND_COLOUR],
          (square_world False)\<lparr>eye := Some sampled_eye\<rparr>, [at_noon])"
  by (simp add: draw_panoramic_view_def or_default_def grid_2_2
      draw_sky_def square_world_def Let_def project_polygon_def sample_ext_def
      square_ground_def depth_order_def argsort_def draw_projected_def Polygon_scale_def
      fmod_pi fmod_zero sky_pixel_def np_int32_def py_int_def double_values sampled_eye_def)

theorem renders_repeat_witness:
  "draw_top_view sample_ext two_routes_world (Some 50) (Some 50) (Some 10) =
       Inr ([New_image 50 50 GROUND_COLOUR,
             Draw_polygon [(0, 0), (50, 0), (50, 50), (0, 50)] GROUND_COLOUR,
             Draw_line [(5, 5), (10, 15)] (127, 127, 127),
             Draw_line [(5, 5), (10, 15)] (127, 127, 127)], two_routes_world)
   \<and> draw_panoramic_view sample_ext 30 [at_noon] ((square_world False)\<lparr>eye := Some sampled_eye\<rparr>)
        None None None 0 (Some 2) None (Some 2) False
     = Inr ([New_image 2 2 GROUND_COLOUR, Put_pixel 0 0 (127, 127, 255),
             Put_pixel 1 0 (127, 127, 255),
             Draw_polygon [(1, 0), (1, 0), (1, 0), (1, 0)] GROUND_COLOUR],
            (square_world False)\<lparr>eye := Some sampled_eye\<rparr>, [at_noon])"
proof -
  note T = renders_repeat [where X = sample_ext and w = two_routes_world and tw = "Some 50"
      and tln = "Some 50" and th = "Some 10" and w' = two_routes_world
      and ops = "[New_image 50 50 GROUND_COLOUR,
             Draw_polygon [(0, 0), (50, 0), (50, 50), (0, 50)] GROUND_COLOUR,
             Draw_line [(5, 5), (10, 15)] (127, 127, 127),
             Draw_line [(5, 5), (10, 15)] (127, 127, 127)]"
      and now = 20 and now' = 30 and st = "[at_noon]" and st' = "[at_noon]"
      and v = "square_world False" and x = None and y = None and z = None and r = 0
      and pw = "Some 2" and pl = None and ph = "Some 2"
      and pops = "[New_image 2 2 GROUND_COLOUR, Put_pixel 0 0 (127, 127, 255),
             Put_pixel 1 0 (127, 127, 255),
             Draw_polygon [(1, 0), (1, 0), (1, 0), (1, 0)] GROUND_COLOUR]"
      and ?v1.0 = "(square_world False)\<lparr>eye := Some sampled_eye\<rparr>" and ?st1.0 = "[at_noon]"]
  from T two_routes_top_view sampled_panoramic_view [of 20] show ?thesis
    by blast
qed

section \<open>The observer's date\<close>

lemma World_init_observer:
  assumes "World_init X now st observer ps width len height uniform pf = Inr (w, st')"
  shows "(case observer of
            Some r0 \<Rightarrow> st' = st[r0 := (st ! r0)\<lparr>date := now\<rparr>] \<and> obs (sky w) = r0
          | None \<Rightarrow> st' = st @ [(seville X)\<lparr>date := now\<rparr>] \<and> obs (sky w) = length st)
       \<and> generated (sky w) = Some (st' ! obs (sky w))"
  using assms
  by (auto simp: World_init_def bind_err_Inr_iff Let_def generate_def get_seville_observer_def
      split: option.splits)

lemma draw_sky_update:
  assumes "draw_sky X now st w r width height True omm = Inr (so, w1, st1)"
  shows "if uniform_sky w then st1 = st \<and> w1 = w
         else st1 = st[obs (sky w) := (st ! obs (sky w))\<lparr>date := now\<rparr>]
            \<and> obs (sky w1) = obs (sky w)
            \<and> generated (sky w1) = Some (st1 ! obs (sky w))"
  using assms
  by (auto simp: draw_sky_def Let_def bind_err_Inr_iff generate_def split: if_splits)

text \<open>
  Claim C10, as the code has it. The constructor overwrites the date of the observer it is
  given with the current time, and leaves its place and every other observer as they
  were; without an observer it creates one and sets its date likewise; the sky model
  refers to that observer and is generated from it after the overwrite. A panoramic view
  with the sky update overwrites the date of the sky's observer again when the sky is not
  uniform; with a uniform sky, or without the update, it leaves the store as it was.
\<close>

theorem observer_date_overwritten:
  "(r0 < length st
      \<and> World_init X now st (Some r0) ps width len height uniform pf = Inr (w, st') \<longrightarrow>
        date (st' ! r0) = now \<and> lon (st' ! r0) = lon (st ! r0) \<and> lat (st' ! r0) = lat (st ! r0)
      \<and> length st' = length st \<and> (\<forall>k. k \<noteq> r0 \<longrightarrow> st' ! k = st ! k)
      \<and> obs (sky w) = r0 \<and> generated (sky w) = Some (st' ! r0))
   \<and> (World_init X now st None ps width len height uniform pf = Inr (w, st') \<longrightarrow>
        st' = st @ [(seville X)\<lparr>date := now\<rparr>] \<and> obs (sky w) = length st
      \<and> generated (sky w) = Some ((seville X)\<lparr>date := now\<rparr>))
   \<and> (\<not> uniform_sky v \<and> obs (sky v) < length st
      \<and> draw_panoramic_view X now st v x y z r pw pl ph True = Inr (ops, v1, st1) \<longrightarrow>
        date (st1 ! obs (sky v)) = now \<and> length st1 = length st
      \<and> (\<forall>k. k \<noteq> obs (sky v) \<longrightarrow> st1 ! k = st ! k)
      \<and> obs (sky v1) = obs (sky v) \<and> generated (sky v1) = Some (st1 ! obs (sky v)))
   \<and> (uniform_sky v
      \<and> draw_panoramic_view X now st v x y z r pw pl ph True = Inr (ops, v1, st1) \<longrightarrow>
        st1 = st \<and> v1 = v)
   \<and> (draw_panoramic_view X now st v x y z r pw pl ph False = Inr (ops, v1, st1) \<longrightarrow>
        st1 = st)"
proof -
  have a: "date (st' ! r0) = now \<and> lon (st' ! r0) = lon (st ! r0) \<and> lat (st' ! r0) = lat (st ! r0)
      \<and> length st' = length st \<and> (\<forall>k. k \<noteq> r0 \<longrightarrow> st' ! k = st ! k)
      \<and> obs (sky w) = r0 \<and> generated (sky w) = Some (st' ! r0)"
    if "r0 < length st
      \<and> World_init X now st (Some r0) ps width len height uniform pf = Inr (w, st')"
    using that World_init_observer [of X now st "Some r0" ps width len height uniform pf w st']
    by auto
  have b: "st' = st @ [(seville X)\<lparr>date := now\<rparr>] \<and> obs (sky w) = length st
      \<and> generated (sky w) = Some ((seville X)\<lparr>date := now\<rparr>)"
    if "World_init X now st None ps width len height uniform pf = Inr (w, st')"
    using World_init_observer [OF that] by auto
  have sky_of: "\<exists>omm so. draw_sky X now st v r (or_default pw (world_width v))
        (or_default ph (world_height v)) upd omm = Inr (so, v1, st1)"
    if "draw_panoramic_view X now st v x y z r pw pl ph upd = Inr (ops, v1, st1)" for upd
    using draw_panoramic_view_Inr [OF that] by blast
  have c: "date (st1 ! obs (sky v)) = now \<and> length st1 = length st
      \<and> (\<forall>k. k \<noteq> obs (sky v) \<longrightarrow> st1 ! k = st ! k)
      \<and> obs (sky v1) = obs (sky v) \<and> generated (sky v1) = Some (st1 ! obs (sky v))"
    if h: "\<not> uniform_sky v \<and> obs (sky v) < length st
      \<and> draw_panoramic_view X now st v x y z r pw pl ph True = Inr (ops, v1, st1)"
  proof -
    from h sky_of obtain omm so where "draw_sky X now st v r (or_default pw (world_width v))
        (or_default ph (world_height v)) True omm = Inr (so, v1, st1)" by blast
    from draw_sky_update [OF this] h show ?thesis by auto
  qed
  have d: "st1 = st \<and> v1 = v"
    if h: "uniform_sky v
      \<and> draw_panoramic_view X now st v x y z r pw pl ph True = Inr (ops, v1, st1)"
  proof -
    from h sky_of obtain omm so where "draw_sky X now st v r (or_default pw (world_width v))
        (or_default ph (world_height v)) True omm = Inr (so, v1, st1)" by blast
    from draw_sky_update [OF this] h show ?thesis by auto
  qed
  have e: "st1 = st"
    if "draw_panoramic_view X now st v x y z r pw pl ph False = Inr (ops, v1, st1)"
    using draw_panoramic_view_again [OF that] by simp
  show ?thesis
    using a b c d e by blast
qed

lemma square_world_init:
  "World_init sample_ext 8 [at_noon] (Some 0) [square_ground] 36 36 10 u True
   = Inr (square_world u, [at_noon\<lparr>date := 8\<rparr>])"
  by (simp add: World_init_def PolygonList_x_def PolygonList_y_def PolygonList_z_def
      vertices_def square_ground_def square_world_def generate_def at_noon_def)

lemma sampled_panoramic_update:
  "draw_panoramic_view sample_ext 9 [at_noon\<lparr>date := 8\<rparr>] (square_world False) None None None 0
      (Some 2) None (Some 2) True
   = Inr ([New_image 2 2 GROUND_COLOUR, Put_pixel 0 0 (127, 127, 255),
           Put_pixel 1 0 (127, 127, 255),
           Draw_polygon [(1, 0), (1, 0), (1, 0), (1, 0)] GROUND_COLOUR],
          (square_world False)
            \<lparr>sky := \<lparr>obs = 0, nside = 1, generated = Some (at_noon\<lparr>date := 9\<rparr>)\<rparr>,
             eye := Some (sampled_eye
               \<lparr>eye_sky := Some \<lparr>obs = 0, nside = 1, generated = Some (at_noon\<lparr>date := 9\<rparr>)\<rparr>\<rparr>)\<rparr>,
          [at_noon\<lparr>date := 9\<rparr>])"
  by (simp add: draw_panoramic_view_def or_default_def grid_2_2 generate_def
      draw_sky_def square_world_def Let_def project_polygon_def sample_ext_def
      square_ground_def depth_order_def argsort_def draw_projected_def Polygon_scale_def
      fmod_pi fmod_zero sky_pixel_def np_int32_def py_int_def double_values sampled_eye_def at_noon_def)

theorem observer_date_overwritten_witness:
  "date at_noon = 7
   \<and> World_init sample_ext 8 [at_noon] (Some 0) [square_ground] 36 36 10 False True
       = Inr (square_world False, [at_noon\<lparr>date := 8\<rparr>])
   \<and> date ([at_noon\<lparr>date := 8\<rparr>] ! 0) = 8
   \<and> dates_after (draw_panoramic_view sample_ext 9 [at_noon\<lparr>date := 8\<rparr>] (square_world False)
        None None None 0 (Some 2) None (Some 2) True) = Inr [9]"
proof -
  have "date ([at_noon\<lparr>date := 8\<rparr>] ! 0) = 8"
    using observer_date_overwritten [where ?r0.0 = 0 and st = "[at_noon]" and X = sample_ext
        and now = 8 and ps = "[square_ground]" and width = 36 and len = 36 and height = 10
        and uniform = False and pf = True and w = "square_world False"
        and st' = "[at_noon\<lparr>date := 8\<rparr>]", THEN conjunct1]
      square_world_init [of False]
    by simp
  then show ?thesis
    by (simp add: square_world_init sampled_panoramic_update dates_after_def)
       (simp add: at_noon_def)
qed

text \<open>
  A panoramic view of a world with a uniform sky, with the sky update enabled, at time 9:
  the observer's date stays 8.
\<close>

theorem uniform_sky_keeps_date:
  "dates_after (draw_panoramic_view sample_ext 9 [at_noon\<lparr>date := 8\<rparr>] (square_world True)
        None None None 0 (Some 4) None (Some 2) True) = Inr [8]"
  by (simp add: dates_after_def draw_panoramic_view_def or_default_def ommatidia_grid_def
      linspace_def draw_sky_def square_world_def Let_def project_polygon_def sample_ext_def
      square_ground_def depth_order_def argsort_def draw_projected_def Polygon_scale_def
      fmod_pi fmod_zero at_noon_def)

end
